theory Spec2Isabelle
  imports Complex_Main "HOL-Library.AList" "HOL-Library.Char_ord" "HOL-Library.List_Lexorder"
begin

section \<open>Values, objects and the document client's marshalling\<close>

text \<open>
  The repository handles plain data objects. A value is what a property of such an object
  can hold: \<open>undefined\<close>, \<open>null\<close>, a boolean, a number, a string, an array, an object.
  A finite number is kept as the rational it denotes (the repository never computes with
  it); \<open>NaN\<close> and the two infinities are values of their own. An object is the list of its
  own properties in enumeration order (the order of \<^verbatim>\<open>Object.entries\<close>), a well-formed
  object having pairwise distinct keys. A property that is absent reads as \<open>None\<close>.
\<close>

datatype special = NaN | PosInfinity | NegInfinity

datatype jsval =
    JUndefined
  | JNull
  | JBool bool
  | JNum rat
  | JSpecial special
  | JStr string
  | JList "jsval list"
  | JObj "(string \<times> jsval) list"

type_synonym item = "(string \<times> jsval) list"

text \<open>
  \<^verbatim>\<open>dynamoClient\<close> is the document client, configured in \<^verbatim>\<open>config/dynamodb.ts\<close> with
  \<^verbatim>\<open>convertEmptyValues: true\<close> ("Automatically convert empty strings to null") and
  \<^verbatim>\<open>removeUndefinedValues: true\<close> ("Remove undefined values from objects"). Every
  attribute value of a command passes through this conversion, at every depth, when the
  command is sent. The marshaller throws on a number that is not finite or lies beyond
  the safe integers; \<open>can_marshall\<close> says that it does not throw.
\<close>

definition MAX_SAFE_INTEGER :: rat where
  "MAX_SAFE_INTEGER = 9007199254740991"

primrec can_marshall :: "jsval \<Rightarrow> bool" where
  "can_marshall JUndefined = True"
| "can_marshall JNull = True"
| "can_marshall (JBool b) = True"
| "can_marshall (JNum q) = (- MAX_SAFE_INTEGER \<le> q \<and> q \<le> MAX_SAFE_INTEGER)"
| "can_marshall (JSpecial s) = False"
| "can_marshall (JStr s) = True"
| "can_marshall (JList vs) = list_all can_marshall vs"
| "can_marshall (JObj kvs) = list_all (pred_prod (\<lambda>k. True) can_marshall) kvs"

primrec convert :: "jsval \<Rightarrow> jsval" where
  "convert JUndefined = JUndefined"
| "convert JNull = JNull"
| "convert (JBool b) = JBool b"
| "convert (JNum q) = JNum q"
| "convert (JSpecial s) = JSpecial s"
| "convert (JStr s) = (if s = [] then JNull else JStr s)"
| "convert (JList vs) = JList (filter (\<lambda>v. v \<noteq> JUndefined) (map convert vs))"
| "convert (JObj kvs) = JObj (filter (\<lambda>p. snd p \<noteq> JUndefined) (map (map_prod id convert) kvs))"

text \<open>An item, a key or a table of expression values as it leaves the client: the
  members that are \<open>undefined\<close> are gone, the others converted.\<close>

definition marshalled :: "item \<Rightarrow> item" where
  "marshalled it = filter (\<lambda>p. snd p \<noteq> JUndefined) (map (map_prod id convert) it)"

definition marshall :: "item \<Rightarrow> item option" where
  "marshall it = (if list_all (\<lambda>p. can_marshall (snd p)) it then Some (marshalled it) else None)"

text \<open>\<open>plain v\<close>: the conversion leaves the value as it is, at every depth: no
  \<open>undefined\<close>, no empty string, every number finite and safe.\<close>

primrec plain :: "jsval \<Rightarrow> bool" where
  "plain JUndefined = False"
| "plain JNull = True"
| "plain (JBool b) = True"
| "plain (JNum q) = (- MAX_SAFE_INTEGER \<le> q \<and> q \<le> MAX_SAFE_INTEGER)"
| "plain (JSpecial s) = False"
| "plain (JStr s) = (s \<noteq> [])"
| "plain (JList vs) = list_all plain vs"
| "plain (JObj kvs) = list_all (pred_prod (\<lambda>k. True) plain) kvs"

section \<open>utils/errors.ts\<close>

record AppError =
  name :: string
  message :: string
  statusCode :: nat
  code :: string
  details :: "(string \<times> string option) list option"
  isOperational :: bool

text \<open>\<^verbatim>\<open>id ? `${resource} with ID '${id}' not found` : `${resource} not found`\<close>: the
  identifier is falsy when it is absent or the empty string.\<close>

definition NotFoundError :: "string \<Rightarrow> string option \<Rightarrow> AppError" where
  "NotFoundError resource ident =
     \<lparr> name = ''NotFoundError'',
       message = (case ident of
                    Some i \<Rightarrow> (if i \<noteq> [] then resource @ '' with ID '' @ [CHR 39] @ i @ [CHR 39] @ '' not found''
                               else resource @ '' not found'')
                  | None \<Rightarrow> resource @ '' not found''),
       statusCode = 404,
       code = ''NOT_FOUND'',
       details = Some [(''resource'', Some resource), (''id'', ident)],
       isOperational = True \<rparr>"

definition DatabaseError :: "string \<Rightarrow> AppError" where
  "DatabaseError msg =
     \<lparr> name = ''DatabaseError'',
       message = msg,
       statusCode = 500,
       code = ''DATABASE_ERROR'',
       details = None,
       isOperational = False \<rparr>"

section \<open>utils/logger.ts\<close>

datatype LogLevel = DEBUG | INFO | WARN | ERROR

fun LOG_LEVEL_PRIORITY :: "LogLevel \<Rightarrow> nat" where
  "LOG_LEVEL_PRIORITY DEBUG = 0"
| "LOG_LEVEL_PRIORITY INFO = 1"
| "LOG_LEVEL_PRIORITY WARN = 2"
| "LOG_LEVEL_PRIORITY ERROR = 3"

definition currentLogLevel :: "bool \<Rightarrow> LogLevel" where
  "currentLogLevel isDevelopment = (if isDevelopment then DEBUG else INFO)"

definition shouldLog :: "bool \<Rightarrow> LogLevel \<Rightarrow> bool" where
  "shouldLog isDevelopment lvl \<longleftrightarrow>
     LOG_LEVEL_PRIORITY lvl \<ge> LOG_LEVEL_PRIORITY (currentLogLevel isDevelopment)"

text \<open>A log entry as handed to the console. The entry's own timestamp (a further reading
  of the clock) and its textual formatting are left out.\<close>

record LogEntry =
  level :: LogLevel
  msg :: string
  data :: "(string \<times> jsval option) list"

definition log_event :: "bool \<Rightarrow> LogLevel \<Rightarrow> string \<Rightarrow> (string \<times> jsval option) list
    \<Rightarrow> LogEntry list \<Rightarrow> LogEntry list" where
  "log_event isDevelopment lvl m d out =
     (if \<not> shouldLog isDevelopment lvl then out
      else out @ [\<lparr> level = lvl, msg = m, data = d \<rparr>])"

section \<open>The store behind \<^verbatim>\<open>dynamoClient.send\<close>\<close>

text \<open>
  The store is the collaborator of the repository, not part of it. It is modelled as one
  table with the partition key \<open>id\<close> of type string, as the stacks declare the tables of
  products, service profiles and service requests, which answers each command
  atomically. An exception thrown by the client carries a name and a message;
  \<^verbatim>\<open>String(error)\<close> renders it.
\<close>

record StoreError =
  ename :: string
  emessage :: string

definition String_of_error :: "StoreError \<Rightarrow> string" where
  "String_of_error e =
     (if ename e = [] then emessage e
      else if emessage e = [] then ename e
      else ename e @ '': '' @ emessage e)"

definition ConditionalCheckFailedException :: StoreError where
  "ConditionalCheckFailedException =
     \<lparr> ename = ''ConditionalCheckFailedException'', emessage = ''The conditional request failed'' \<rparr>"

definition ValidationException :: "string \<Rightarrow> StoreError" where
  "ValidationException m = \<lparr> ename = ''ValidationException'', emessage = m \<rparr>"

text \<open>What the marshaller throws (its message, which names the number, is shortened).\<close>

definition MarshallError :: StoreError where
  "MarshallError = \<lparr> ename = ''Error'', emessage = ''Number is not finite or not a safe integer'' \<rparr>"

datatype condition = attribute_exists string | attribute_not_exists string

text \<open>
  The commands the repository sends: table name, then the fields the source sets. The
  update expression and the key condition are kept as their abstract syntax: the list of
  \<open>SET\<close> clauses (name placeholder, value placeholder), resp. the one equation between
  a name placeholder and a value placeholder; \<open>UpdateExpression\<close> below renders the
  text of the former. A scan carries its limit and its filter (expression, attribute
  names, attribute values) when the source sets them.
\<close>

datatype command =
    GetCommand string item
  | PutCommand string item condition
  | DeleteCommand string item condition
  | ScanCommand string "int option" "(string \<times> (string \<times> string) list \<times> item) option"
  | QueryCommand string string "string \<times> string" "(string \<times> string) list" item
  | UpdateCommand string item "(string \<times> string) list" "(string \<times> string) list" item condition

record response =
  Item :: "item option"
  Items :: "item list option"
  Attributes :: "item option"

definition no_output :: response where
  "no_output = \<lparr> Item = None, Items = None, Attributes = None \<rparr>"

text \<open>
  The world a call acts on: the items of the table in the order a scan returns them, the
  console the logger writes to, and what the store is configured with or decides by
  itself: where among the items it files a new key (\<open>placement\<close>), its secondary indexes
  (name and key attribute, of type string), and its reading of a filter expression
  (\<open>None\<close> when it refuses the expression).
\<close>

record world =
  table :: "item list"
  console :: "LogEntry list"
  placement :: "string \<Rightarrow> item list \<Rightarrow> nat"
  indexes :: "(string \<times> string) list"
  filters :: "string \<Rightarrow> (string \<times> string) list \<Rightarrow> item \<Rightarrow> item \<Rightarrow> bool option"

text \<open>The client marshals the key, the item and the expression values of a command.\<close>

fun marshall_command :: "command \<Rightarrow> command option" where
  "marshall_command (GetCommand tn key) = map_option (GetCommand tn) (marshall key)"
| "marshall_command (PutCommand tn it cond) = map_option (\<lambda>m. PutCommand tn m cond) (marshall it)"
| "marshall_command (DeleteCommand tn key cond) = map_option (\<lambda>m. DeleteCommand tn m cond) (marshall key)"
| "marshall_command (ScanCommand tn lmt None) = Some (ScanCommand tn lmt None)"
| "marshall_command (ScanCommand tn lmt (Some (f, names, vals))) =
     map_option (\<lambda>m. ScanCommand tn lmt (Some (f, names, m))) (marshall vals)"
| "marshall_command (QueryCommand tn ix kc names vals) =
     map_option (QueryCommand tn ix kc names) (marshall vals)"
| "marshall_command (UpdateCommand tn key clauses names vals cond) =
     (case (marshall key, marshall vals) of
        (Some k, Some m) \<Rightarrow> Some (UpdateCommand tn k clauses names m cond)
      | _ \<Rightarrow> None)"

text \<open>The key of an item or of a key object: its \<open>id\<close>, which the table takes when it is
  a string that is not empty.\<close>

definition key_of :: "item \<Rightarrow> string option" where
  "key_of it = (case map_of it ''id'' of
                  Some (JStr s) \<Rightarrow> (if s \<noteq> [] then Some s else None)
                | _ \<Rightarrow> None)"

definition has_key :: "string \<Rightarrow> item \<Rightarrow> bool" where
  "has_key k it \<longleftrightarrow> map_of it ''id'' = Some (JStr k)"

definition lookup_item :: "item list \<Rightarrow> string \<Rightarrow> item option" where
  "lookup_item tbl k = find (has_key k) tbl"

fun eval_condition :: "condition \<Rightarrow> item option \<Rightarrow> bool" where
  "eval_condition (attribute_exists a) None = False"
| "eval_condition (attribute_exists a) (Some it) = (map_of it a \<noteq> None)"
| "eval_condition (attribute_not_exists a) None = True"
| "eval_condition (attribute_not_exists a) (Some it) = (map_of it a = None)"

text \<open>
  What the store keeps as the value of an attribute: a number is 0 or of a magnitude from
  1E-130 up to 1E126, that bound excluded, and a name inside a map is not empty. A value
  \<open>undefined\<close> never reaches the store.
\<close>

primrec storable :: "jsval \<Rightarrow> bool" where
  "storable JUndefined = False"
| "storable JNull = True"
| "storable (JBool b) = True"
| "storable (JNum q) = (q = 0 \<or> (1 / 10 ^ 130 \<le> \<bar>q\<bar> \<and> \<bar>q\<bar> < 10 ^ 126))"
| "storable (JSpecial s) = False"
| "storable (JStr s) = True"
| "storable (JList vs) = list_all storable vs"
| "storable (JObj kvs) = list_all (pred_prod (\<lambda>k. k \<noteq> []) storable) kvs"

text \<open>The attributes of an item are named, by a name that is not empty, and hold what the
  store keeps; one that is the key of a secondary index is a string that is not empty.\<close>

definition index_value_ok :: "jsval \<Rightarrow> bool" where
  "index_value_ok v = (case v of JStr s \<Rightarrow> s \<noteq> [] | _ \<Rightarrow> False)"

definition attributes_ok :: "(string \<times> string) list \<Rightarrow> item \<Rightarrow> bool" where
  "attributes_ok ixs it =
     list_all (\<lambda>p. fst p \<noteq> [] \<and> storable (snd p)
                  \<and> (fst p \<in> snd ` set ixs \<longrightarrow> index_value_ok (snd p))) it"

text \<open>The clauses of an update expression are resolved through the two placeholder
  tables; a placeholder missing from its table is refused.\<close>

fun resolve :: "(string \<times> string) list \<Rightarrow> (string \<times> string) list \<Rightarrow> item \<Rightarrow> item option" where
  "resolve [] names vals = Some []"
| "resolve ((a, v) # cs) names vals =
     (case (map_of names a, map_of vals v, resolve cs names vals) of
        (Some k, Some x, Some rest) \<Rightarrow> Some ((k, x) # rest)
      | _ \<Rightarrow> None)"

text \<open>The assignments of an update are refused when two of them name one attribute,
  when one names the key, or when one gives an attribute a name or a value it cannot
  have.\<close>

definition valid_update :: "(string \<times> string) list \<Rightarrow> item \<Rightarrow> bool" where
  "valid_update ixs asg \<longleftrightarrow>
     distinct (map fst asg) \<and> ''id'' \<notin> fst ` set asg \<and> attributes_ok ixs asg"

definition assign_all :: "item \<Rightarrow> item \<Rightarrow> item" where
  "assign_all asg it = fold (\<lambda>p. AList.update (fst p) (snd p)) asg it"

definition replace_item :: "string \<Rightarrow> item \<Rightarrow> item list \<Rightarrow> item list" where
  "replace_item k new tbl = map (\<lambda>it. if has_key k it then new else it) tbl"

definition insert_at :: "nat \<Rightarrow> item \<Rightarrow> item list \<Rightarrow> item list" where
  "insert_at n it tbl = take n tbl @ it # drop n tbl"

text \<open>What the store does with a command that reached it, already marshalled: it
  validates the request, then checks the condition, then applies it.\<close>

fun exec :: "world \<Rightarrow> command \<Rightarrow> (StoreError + response) \<times> item list" where
  "exec w (GetCommand tn key) =
     (case key_of key of
        None \<Rightarrow> (Inl (ValidationException ''The provided key element does not match the schema''), table w)
      | Some k \<Rightarrow> (Inr (no_output \<lparr> Item := lookup_item (table w) k \<rparr>), table w))"
| "exec w (PutCommand tn it cond) =
     (case key_of it of
        None \<Rightarrow> (Inl (ValidationException ''Missing or mismatched key id in the item''), table w)
      | Some k \<Rightarrow>
          if \<not> attributes_ok (indexes w) it
          then (Inl (ValidationException ''One or more parameter values were invalid''), table w)
          else if \<not> eval_condition cond (lookup_item (table w) k)
          then (Inl ConditionalCheckFailedException, table w)
          else (case lookup_item (table w) k of
                  None \<Rightarrow> (Inr no_output, insert_at (placement w k (table w)) it (table w))
                | Some old \<Rightarrow> (Inr no_output, replace_item k it (table w))))"
| "exec w (DeleteCommand tn key cond) =
     (case key_of key of
        None \<Rightarrow> (Inl (ValidationException ''The provided key element does not match the schema''), table w)
      | Some k \<Rightarrow>
          if \<not> eval_condition cond (lookup_item (table w) k)
          then (Inl ConditionalCheckFailedException, table w)
          else (Inr no_output, filter (\<lambda>it. \<not> has_key k it) (table w)))"
| "exec w (ScanCommand tn lmt filt) =
     (case lmt of
        Some n \<Rightarrow>
          if n < 1 then (Inl (ValidationException ''Limit must be greater than or equal to 1''), table w)
          else (case filt of
                  None \<Rightarrow> (Inr (no_output \<lparr> Items := Some (take (nat n) (table w)) \<rparr>), table w)
                | Some (f, names, vals) \<Rightarrow>
                    if list_all (\<lambda>it. filters w f names vals it \<noteq> None) (table w)
                    then (Inr (no_output \<lparr> Items := Some (filter (\<lambda>it. filters w f names vals it = Some True)
                                                        (take (nat n) (table w))) \<rparr>), table w)
                    else (Inl (ValidationException ''Invalid FilterExpression''), table w))
      | None \<Rightarrow>
          (case filt of
             None \<Rightarrow> (Inr (no_output \<lparr> Items := Some (table w) \<rparr>), table w)
           | Some (f, names, vals) \<Rightarrow>
               if list_all (\<lambda>it. filters w f names vals it \<noteq> None) (table w)
               then (Inr (no_output \<lparr> Items := Some (filter (\<lambda>it. filters w f names vals it = Some True)
                                                   (table w)) \<rparr>), table w)
               else (Inl (ValidationException ''Invalid FilterExpression''), table w)))"
| "exec w (QueryCommand tn ix kc names vals) =
     (case (map_of names (fst kc), map_of vals (snd kc)) of
        (Some a, Some v) \<Rightarrow>
          if (ix, a) \<in> set (indexes w) \<and> index_value_ok v
          then (Inr (no_output \<lparr> Items := Some (filter (\<lambda>it. map_of it a = Some v) (table w)) \<rparr>), table w)
          else (Inl (ValidationException ''The table does not have the specified index''), table w)
      | _ \<Rightarrow> (Inl (ValidationException ''Invalid KeyConditionExpression''), table w))"
| "exec w (UpdateCommand tn key clauses names vals cond) =
     (case key_of key of
        None \<Rightarrow> (Inl (ValidationException ''The provided key element does not match the schema''), table w)
      | Some k \<Rightarrow>
          (case resolve clauses names vals of
             None \<Rightarrow> (Inl (ValidationException ''Invalid UpdateExpression''), table w)
           | Some asg \<Rightarrow>
               if \<not> valid_update (indexes w) asg
               then (Inl (ValidationException ''Invalid UpdateExpression''), table w)
               else if \<not> eval_condition cond (lookup_item (table w) k)
               then (Inl ConditionalCheckFailedException, table w)
               else (case lookup_item (table w) k of
                       None \<Rightarrow> (Inl (ValidationException ''No item to update''), table w)
                     | Some old \<Rightarrow>
                         (Inr (no_output \<lparr> Attributes := Some (assign_all asg old) \<rparr>),
                          replace_item k (assign_all asg old) (table w)))))"

text \<open>
  One call of \<^verbatim>\<open>dynamoClient.send\<close>. The client marshals the command first and throws
  when it cannot. \<open>fault\<close> is what the call then meets on its way: \<open>None\<close> when the store
  receives and processes the command, \<open>Some e\<close> when the client throws \<open>e\<close> instead
  (network, throttling, a limit of size that the service enforces); a command that meets
  a fault is not applied.
\<close>

definition send :: "StoreError option \<Rightarrow> command \<Rightarrow> world \<Rightarrow> (StoreError + response) \<times> item list" where
  "send fault cmd w =
     (case marshall_command cmd of
        None \<Rightarrow> (Inl MarshallError, table w)
      | Some c \<Rightarrow> (case fault of Some e \<Rightarrow> (Inl e, table w) | None \<Rightarrow> exec w c))"

section \<open>repositories/base.repository.ts\<close>

text \<open>
  A repository instance fixes \<open>tableName\<close> and \<open>entityName\<close>; \<open>isDevelopment\<close> is the
  process configuration the logger reads. Every operation takes, besides the arguments of
  the source, what it reads from outside: the text \<open>now\<close> that
  \<^verbatim>\<open>new Date().toISOString()\<close> returns during the call (where the operation reads the
  clock) and the \<open>fault\<close> its one call of \<^verbatim>\<open>dynamoClient.send\<close> meets.
\<close>

record repo =
  tableName :: string
  entityName :: string
  isDevelopment :: bool

definition logger_info :: "repo \<Rightarrow> string \<Rightarrow> (string \<times> jsval option) list \<Rightarrow> world \<Rightarrow> world" where
  "logger_info r m d w = w \<lparr> console := log_event (isDevelopment r) INFO m d (console w) \<rparr>"

definition logger_error :: "repo \<Rightarrow> string \<Rightarrow> (string \<times> jsval option) list \<Rightarrow> world \<Rightarrow> world" where
  "logger_error r m d w = w \<lparr> console := log_event (isDevelopment r) ERROR m d (console w) \<rparr>"

definition getById :: "repo \<Rightarrow> StoreError option \<Rightarrow> string \<Rightarrow> world \<Rightarrow> (AppError + item option) \<times> world" where
  "getById r fault ident w =
     (case send fault (GetCommand (tableName r) [(''id'', JStr ident)]) w of
        (Inr result, tbl') \<Rightarrow> (Inr (Item result), w \<lparr> table := tbl' \<rparr>)
      | (Inl error, tbl') \<Rightarrow>
          (Inl (DatabaseError (''Failed to retrieve '' @ entityName r)),
           logger_error r (''Failed to get '' @ entityName r @ '' by ID'')
             [(''tableName'', Some (JStr (tableName r))),
              (''id'', Some (JStr ident)),
              (''error'', Some (JStr (String_of_error error)))]
             (w \<lparr> table := tbl' \<rparr>)))"

definition getByIdOrThrow :: "repo \<Rightarrow> StoreError option \<Rightarrow> string \<Rightarrow> world \<Rightarrow> (AppError + item) \<times> world" where
  "getByIdOrThrow r fault ident w =
     (case getById r fault ident w of
        (Inl e, w') \<Rightarrow> (Inl e, w')
      | (Inr None, w') \<Rightarrow> (Inl (NotFoundError (entityName r) (Some ident)), w')
      | (Inr (Some it), w') \<Rightarrow> (Inr it, w'))"

text \<open>\<^verbatim>\<open>...(limit && { Limit: limit })\<close>: the limit is passed on when it is truthy.\<close>

definition scan_limit :: "int option \<Rightarrow> int option" where
  "scan_limit limit = (case limit of None \<Rightarrow> None | Some n \<Rightarrow> if n \<noteq> 0 then Some n else None)"

definition getAll :: "repo \<Rightarrow> StoreError option \<Rightarrow> int option \<Rightarrow> world \<Rightarrow> (AppError + item list) \<times> world" where
  "getAll r fault limit w =
     (case send fault (ScanCommand (tableName r) (scan_limit limit) None) w of
        (Inr result, tbl') \<Rightarrow>
          (Inr (case Items result of Some xs \<Rightarrow> xs | None \<Rightarrow> []), w \<lparr> table := tbl' \<rparr>)
      | (Inl error, tbl') \<Rightarrow>
          (Inl (DatabaseError (''Failed to retrieve '' @ entityName r @ '' list'')),
           logger_error r (''Failed to scan '' @ entityName r)
             [(''tableName'', Some (JStr (tableName r))),
              (''error'', Some (JStr (String_of_error error)))]
             (w \<lparr> table := tbl' \<rparr>)))"

text \<open>\<^verbatim>\<open>{ ...item, createdAt: now, updatedAt: now }\<close>: a property already present keeps its
  place and takes the new value, a new one goes to the end.\<close>

definition itemWithTimestamps :: "string \<Rightarrow> item \<Rightarrow> item" where
  "itemWithTimestamps now it =
     AList.update ''updatedAt'' (JStr now) (AList.update ''createdAt'' (JStr now) it)"

definition create :: "repo \<Rightarrow> string \<Rightarrow> StoreError option \<Rightarrow> item \<Rightarrow> world \<Rightarrow> (AppError + item) \<times> world" where
  "create r now fault it w =
     (case send fault (PutCommand (tableName r) (itemWithTimestamps now it) (attribute_not_exists ''id'')) w of
        (Inr result, tbl') \<Rightarrow>
          (Inr (itemWithTimestamps now it),
           logger_info r (''Created '' @ entityName r) [(''id'', map_of it ''id'')] (w \<lparr> table := tbl' \<rparr>))
      | (Inl error, tbl') \<Rightarrow>
          if ename error = ''ConditionalCheckFailedException''
          then (Inl (DatabaseError (entityName r @ '' with this ID already exists'')), w \<lparr> table := tbl' \<rparr>)
          else (Inl (DatabaseError (''Failed to create '' @ entityName r)),
                logger_error r (''Failed to create '' @ entityName r)
                  [(''tableName'', Some (JStr (tableName r))),
                   (''id'', map_of it ''id''),
                   (''error'', Some (JStr (String_of_error error)))]
                  (w \<lparr> table := tbl' \<rparr>)))"

subsection \<open>The update-expression builder\<close>

text \<open>The decimal text of an index, as a template literal prints it.\<close>

fun string_of_nat :: "nat \<Rightarrow> string" where
  "string_of_nat n =
     (if n < 10 then [char_of (48 + n)]
      else string_of_nat (n div 10) @ [char_of (48 + n mod 10)])"

declare string_of_nat.simps [simp del]

definition attrName :: "nat \<Rightarrow> string" where
  "attrName index = ''#attr'' @ string_of_nat index"

definition attrValue :: "nat \<Rightarrow> string" where
  "attrValue index = '':val'' @ string_of_nat index"

text \<open>The three accumulators of \<open>update\<close> and the body of its \<^verbatim>\<open>forEach\<close> callback.\<close>

record builder =
  updateExpressionParts :: "(string \<times> string) list"
  expressionAttributeNames :: "(string \<times> string) list"
  expressionAttributeValues :: item

definition build_step :: "builder \<Rightarrow> nat \<times> string \<times> jsval \<Rightarrow> builder" where
  "build_step b e =
     (case e of (index, key, v) \<Rightarrow>
        if key = ''id'' then b
        else \<lparr> updateExpressionParts = updateExpressionParts b @ [(attrName index, attrValue index)],
               expressionAttributeNames = AList.update (attrName index) key (expressionAttributeNames b),
               expressionAttributeValues = AList.update (attrValue index) v (expressionAttributeValues b) \<rparr>)"

definition empty_builder :: builder where
  "empty_builder = \<lparr> updateExpressionParts = [], expressionAttributeNames = [], expressionAttributeValues = [] \<rparr>"

definition updatesWithTimestamp :: "string \<Rightarrow> item \<Rightarrow> item" where
  "updatesWithTimestamp now updates = AList.update ''updatedAt'' (JStr now) updates"

definition build_update :: "string \<Rightarrow> item \<Rightarrow> builder" where
  "build_update now updates =
     foldl build_step empty_builder (enumerate 0 (updatesWithTimestamp now updates))"

fun join :: "string \<Rightarrow> string list \<Rightarrow> string" where
  "join sep [] = []"
| "join sep [x] = x"
| "join sep (x # y # ys) = x @ sep @ join sep (y # ys)"

text \<open>\<^verbatim>\<open>`SET ${updateExpressionParts.join(', ')}`\<close>, each part being
  \<^verbatim>\<open>`${attrName} = ${attrValue}`\<close>.\<close>

definition UpdateExpression :: "(string \<times> string) list \<Rightarrow> string" where
  "UpdateExpression parts = ''SET '' @ join '', '' (map (\<lambda>(a, v). a @ '' = '' @ v) parts)"

definition update :: "repo \<Rightarrow> string \<Rightarrow> StoreError option \<Rightarrow> string \<Rightarrow> item \<Rightarrow> world
    \<Rightarrow> (AppError + item option) \<times> world" where
  "update r now fault ident updates w =
     (let b = build_update now updates in
      if length (updateExpressionParts b) = 0
      then (case getByIdOrThrow r fault ident w of
              (Inl e, w') \<Rightarrow> (Inl e, w')
            | (Inr it, w') \<Rightarrow> (Inr (Some it), w'))
      else
        (case send fault
                (UpdateCommand (tableName r) [(''id'', JStr ident)] (updateExpressionParts b)
                   (expressionAttributeNames b) (expressionAttributeValues b) (attribute_exists ''id''))
                w of
           (Inr result, tbl') \<Rightarrow>
             (Inr (Attributes result),
              logger_info r (''Updated '' @ entityName r) [(''id'', Some (JStr ident))] (w \<lparr> table := tbl' \<rparr>))
         | (Inl error, tbl') \<Rightarrow>
             if ename error = ''ConditionalCheckFailedException''
             then (Inl (NotFoundError (entityName r) (Some ident)), w \<lparr> table := tbl' \<rparr>)
             else (Inl (DatabaseError (''Failed to update '' @ entityName r)),
                   logger_error r (''Failed to update '' @ entityName r)
                     [(''tableName'', Some (JStr (tableName r))),
                      (''id'', Some (JStr ident)),
                      (''error'', Some (JStr (String_of_error error)))]
                     (w \<lparr> table := tbl' \<rparr>))))"

definition delete :: "repo \<Rightarrow> StoreError option \<Rightarrow> string \<Rightarrow> world \<Rightarrow> (AppError + unit) \<times> world" where
  "delete r fault ident w =
     (case send fault (DeleteCommand (tableName r) [(''id'', JStr ident)] (attribute_exists ''id'')) w of
        (Inr result, tbl') \<Rightarrow>
          (Inr (), logger_info r (''Deleted '' @ entityName r) [(''id'', Some (JStr ident))] (w \<lparr> table := tbl' \<rparr>))
      | (Inl error, tbl') \<Rightarrow>
          if ename error = ''ConditionalCheckFailedException''
          then (Inl (NotFoundError (entityName r) (Some ident)), w \<lparr> table := tbl' \<rparr>)
          else (Inl (DatabaseError (''Failed to delete '' @ entityName r)),
                logger_error r (''Failed to delete '' @ entityName r)
                  [(''tableName'', Some (JStr (tableName r))),
                   (''id'', Some (JStr ident)),
                   (''error'', Some (JStr (String_of_error error)))]
                  (w \<lparr> table := tbl' \<rparr>)))"



section \<open>Notions used to state the properties\<close>

text \<open>The item the store holds for an identifier, and the value of one of its attributes.\<close>

definition stored :: "world \<Rightarrow> string \<Rightarrow> item option" where
  "stored w ident = lookup_item (table w) ident"

definition attribute :: "world \<Rightarrow> string \<Rightarrow> string \<Rightarrow> jsval option" where
  "attribute w ident k = (case stored w ident of None \<Rightarrow> None | Some it \<Rightarrow> map_of it k)"

text \<open>
  An item that the client can marshal and that the store, with the given indexes, takes:
  its numbers are finite and safe, its \<open>id\<close> is a string that is not empty, and so
  is each of its attributes that is the key of an index; its attributes have names that
  are not empty and values that the store keeps.
\<close>

definition accepted :: "(string \<times> string) list \<Rightarrow> item \<Rightarrow> bool" where
  "accepted ixs it \<longleftrightarrow>
     list_all (\<lambda>p. can_marshall (snd p)) it \<and> key_of (marshalled it) \<noteq> None
     \<and> attributes_ok ixs (marshalled it)"

text \<open>
  The fields of a payload that \<open>update\<close> sends: all but \<open>id\<close>, after \<open>updatedAt\<close> has been
  set. The payload is one the client can marshal and the store takes when these fields
  are defined, with finite and safe numbers, under pairwise distinct names that are not
  empty, hold values that the store keeps, and give an index key no other value than a
  string that is not empty.
\<close>

definition sent_fields :: "string \<Rightarrow> item \<Rightarrow> item" where
  "sent_fields now updates = filter (\<lambda>p. fst p \<noteq> ''id'') (updatesWithTimestamp now updates)"

definition updatable :: "(string \<times> string) list \<Rightarrow> string \<Rightarrow> item \<Rightarrow> bool" where
  "updatable ixs now updates \<longleftrightarrow>
     list_all (\<lambda>p. snd p \<noteq> JUndefined \<and> can_marshall (snd p)) (sent_fields now updates)
     \<and> distinct (map fst (sent_fields now updates))
     \<and> attributes_ok ixs (map (map_prod id convert) (sent_fields now updates))"

text \<open>
  The entries of the payload that the callback of \<open>update\<close> does not skip, each with its
  position, and what the builder makes of one such entry: its clause, its line in the
  name table, its line in the value table.
\<close>

definition non_id :: "(nat \<times> string \<times> jsval) list \<Rightarrow> (nat \<times> string \<times> jsval) list" where
  "non_id es = filter (\<lambda>e. fst (snd e) \<noteq> ''id'') es"

definition clause_of :: "nat \<times> string \<times> jsval \<Rightarrow> string \<times> string" where
  "clause_of e = (attrName (fst e), attrValue (fst e))"

definition name_of :: "nat \<times> string \<times> jsval \<Rightarrow> string \<times> string" where
  "name_of e = (attrName (fst e), fst (snd e))"

definition value_of :: "nat \<times> string \<times> jsval \<Rightarrow> string \<times> jsval" where
  "value_of e = (attrValue (fst e), snd (snd e))"

text \<open>The value of a decimal digit, to read \<open>string_of_nat\<close> back.\<close>

definition digit_val :: "char \<Rightarrow> nat" where
  "digit_val c = of_char c - 48"

text \<open>A run of \<open>update\<close> calls on one identifier, each with the clock reading and the
  payload of the call, none meeting a fault.\<close>

fun run_updates :: "repo \<Rightarrow> string \<Rightarrow> (string \<times> item) list \<Rightarrow> world \<Rightarrow> world" where
  "run_updates r ident [] w = w"
| "run_updates r ident ((now, updates) # calls) w =
     run_updates r ident calls (snd (update r now None ident updates w))"




text \<open>A repository and worlds to run the operations on: the table of products with its
  index on the category, a store that files a new item after the others and reads one
  form of filter, the comparison of an attribute with a value.\<close>

definition products :: repo where
  "products = \<lparr> tableName = ''fitit-products'', entityName = ''Product'', isDevelopment = False \<rparr>"

definition equality_filter :: "string \<Rightarrow> (string \<times> string) list \<Rightarrow> item \<Rightarrow> item \<Rightarrow> bool option" where
  "equality_filter f names vals it =
     (if f = ''#a = :v''
      then (case (map_of names ''#a'', map_of vals '':v'') of
              (Some a, Some v) \<Rightarrow> Some (map_of it a = Some v)
            | _ \<Rightarrow> None)
      else None)"

definition empty_world :: world where
  "empty_world = \<lparr> table = [], console = [], placement = (\<lambda>k tbl. length tbl),
                    indexes = [(''category-index'', ''category'')], filters = equality_filter \<rparr>"

definition hammer :: item where
  "hammer = [(''id'', JStr ''p1''), (''name'', JStr ''Hammer''), (''category'', JStr ''General''),
             (''price'', JNum (1999 / 100))]"

definition hammer_world :: world where
  "hammer_world = empty_world \<lparr> table := [hammer @ [(''createdAt'', JStr ''2024-01-01T00:00:00.000Z''),
                                                   (''updatedAt'', JStr ''2024-01-01T00:00:00.000Z'')]] \<rparr>"

section \<open>Properties\<close>

subsection \<open>Marshalling and placeholders\<close>

lemma convert_undefined [simp]: "convert v = JUndefined \<longleftrightarrow> v = JUndefined"
  by (cases v) auto

lemma plain_convert: "plain v \<Longrightarrow> convert v = v"
proof (induction v)
  case (JList vs)
  then have "map convert vs = vs" by (simp add: list_all_iff map_idI)
  moreover from JList.prems have "filter (\<lambda>v. v \<noteq> JUndefined) vs = vs"
    by (auto simp: list_all_iff filter_id_conv)
  ultimately show ?case by simp
next
  case (JObj kvs)
  have "map (map_prod id convert) kvs = kvs"
  proof (rule map_idI)
    fix p assume p: "p \<in> set kvs"
    obtain k v where kv: "p = (k, v)" by (cases p)
    with p JObj.prems have "plain v" by (auto simp: list_all_iff)
    moreover from p kv have "v \<in> Basic_BNFs.snds p" by simp
    ultimately have "convert v = v" using JObj.IH p by blast
    with kv show "map_prod id convert p = p" by simp
  qed
  moreover from JObj.prems have "filter (\<lambda>p. snd p \<noteq> JUndefined) kvs = kvs"
    by (auto simp: list_all_iff filter_id_conv)
  ultimately show ?case by simp
qed simp_all

lemma plain_can_marshall: "plain v \<Longrightarrow> can_marshall v"
proof (induction v)
  case (JList vs)
  then show ?case by (simp add: list_all_iff)
next
  case (JObj kvs)
  have "pred_prod (\<lambda>k. True) can_marshall p" if p: "p \<in> set kvs" for p
  proof -
    obtain k v where kv: "p = (k, v)" by (cases p)
    with p JObj.prems have "plain v" by (auto simp: list_all_iff)
    moreover from p kv have "v \<in> Basic_BNFs.snds p" by simp
    ultimately have "can_marshall v" using JObj.IH p by blast
    with kv show ?thesis by simp
  qed
  then show ?case by (simp add: list_all_iff)
qed simp_all

lemma plain_defined: "plain v \<Longrightarrow> v \<noteq> JUndefined"
  by auto

lemma marshalled_plain:
  assumes "list_all (\<lambda>p. plain (snd p)) it"
  shows "marshalled it = it"
proof -
  have "map (map_prod id convert) it = it"
    using assms by (intro map_idI) (auto simp: list_all_iff plain_convert map_prod_def split: prod.splits)
  moreover have "filter (\<lambda>p. snd p \<noteq> JUndefined) it = it"
    using assms by (auto simp: list_all_iff filter_id_conv)
  ultimately show ?thesis by (simp add: marshalled_def)
qed

lemma map_of_marshalled:
  "map_of it k = Some v \<Longrightarrow> v \<noteq> JUndefined \<Longrightarrow> map_of (marshalled it) k = Some (convert v)"
  by (induction it) (auto simp: marshalled_def)

lemma map_of_marshalled_None: "map_of it k = None \<Longrightarrow> map_of (marshalled it) k = None"
  by (induction it) (auto simp: marshalled_def split: if_splits)

lemma digit_val_char_of: "d < 10 \<Longrightarrow> digit_val (char_of (48 + d)) = d"
  by (simp add: digit_val_def)

lemma nat_of_string_of_nat: "foldl (\<lambda>a c. 10 * a + digit_val c) 0 (string_of_nat n) = n"
proof (induction n rule: string_of_nat.induct)
  case (1 n)
  show ?case
  proof (cases "n < 10")
    case True
    then show ?thesis by (subst string_of_nat.simps) (simp add: digit_val_char_of)
  next
    case False
    have "n mod 10 < 10" by simp
    then have "digit_val (char_of (48 + n mod 10)) = n mod 10" by (rule digit_val_char_of)
    with False 1 show ?thesis by (subst string_of_nat.simps) simp
  qed
qed

lemma string_of_nat_inj: "string_of_nat m = string_of_nat n \<Longrightarrow> m = n"
  by (metis nat_of_string_of_nat)

lemma attrName_inj [simp]: "attrName m = attrName n \<longleftrightarrow> m = n"
  by (auto simp: attrName_def dest: string_of_nat_inj)

lemma attrValue_inj [simp]: "attrValue m = attrValue n \<longleftrightarrow> m = n"
  by (auto simp: attrValue_def dest: string_of_nat_inj)

lemma update_fresh: "k \<notin> fst ` set al \<Longrightarrow> AList.update k v al = al @ [(k, v)]"
  by (induction al) auto

lemma foldl_build_step:
  assumes "\<forall>j\<ge>n. attrName j \<notin> fst ` set (expressionAttributeNames b)"
    and "\<forall>j\<ge>n. attrValue j \<notin> fst ` set (expressionAttributeValues b)"
  shows "foldl build_step b (enumerate n es) =
     \<lparr> updateExpressionParts = updateExpressionParts b
          @ map clause_of (non_id (enumerate n es)),
       expressionAttributeNames = expressionAttributeNames b
          @ map name_of (non_id (enumerate n es)),
       expressionAttributeValues = expressionAttributeValues b
          @ map value_of (non_id (enumerate n es)) \<rparr>"
  using assms
proof (induction es arbitrary: n b)
  case Nil
  then show ?case by (simp add: non_id_def)
next
  case (Cons e es)
  obtain k v where e: "e = (k, v)" by (cases e)
  show ?case
  proof (cases "k = ''id''")
    case True
    have "foldl build_step b (enumerate n (e # es)) = foldl build_step b (enumerate (Suc n) es)"
      using True e by (simp add: build_step_def)
    also have "\<dots> = \<lparr> updateExpressionParts = updateExpressionParts b
          @ map clause_of (non_id (enumerate (Suc n) es)),
       expressionAttributeNames = expressionAttributeNames b
          @ map name_of (non_id (enumerate (Suc n) es)),
       expressionAttributeValues = expressionAttributeValues b
          @ map value_of (non_id (enumerate (Suc n) es)) \<rparr>"
      using Cons.prems by (intro Cons.IH) auto
    finally show ?thesis using True e by (simp add: non_id_def)
  next
    case False
    let ?b = "build_step b (n, k, v)"
    have names: "expressionAttributeNames ?b = expressionAttributeNames b @ [(attrName n, k)]"
      using False Cons.prems(1) by (simp add: build_step_def update_fresh)
    have vals: "expressionAttributeValues ?b = expressionAttributeValues b @ [(attrValue n, v)]"
      using False Cons.prems(2) by (simp add: build_step_def update_fresh)
    have parts: "updateExpressionParts ?b = updateExpressionParts b @ [(attrName n, attrValue n)]"
      using False by (simp add: build_step_def)
    have "foldl build_step b (enumerate n (e # es)) = foldl build_step ?b (enumerate (Suc n) es)"
      using e by simp
    also have "\<dots> = \<lparr> updateExpressionParts = updateExpressionParts ?b
          @ map clause_of (non_id (enumerate (Suc n) es)),
       expressionAttributeNames = expressionAttributeNames ?b
          @ map name_of (non_id (enumerate (Suc n) es)),
       expressionAttributeValues = expressionAttributeValues ?b
          @ map value_of (non_id (enumerate (Suc n) es)) \<rparr>"
    proof (intro Cons.IH)
      show "\<forall>j\<ge>Suc n. attrName j \<notin> fst ` set (expressionAttributeNames ?b)"
        using Cons.prems(1) by (auto simp: names)
      show "\<forall>j\<ge>Suc n. attrValue j \<notin> fst ` set (expressionAttributeValues ?b)"
        using Cons.prems(2) by (auto simp: vals)
    qed
    finally show ?thesis using False e by (simp add: non_id_def names vals parts clause_of_def name_of_def value_of_def)
  qed
qed

lemma build_update_eq:
  "build_update now updates =
     \<lparr> updateExpressionParts =
         map clause_of (non_id (enumerate 0 (updatesWithTimestamp now updates))),
       expressionAttributeNames =
         map name_of (non_id (enumerate 0 (updatesWithTimestamp now updates))),
       expressionAttributeValues =
         map value_of (non_id (enumerate 0 (updatesWithTimestamp now updates))) \<rparr>"
  unfolding build_update_def
  by (subst foldl_build_step) (simp_all add: empty_builder_def)

lemma distinct_fst_non_id: "distinct (map fst (non_id (enumerate n es)))"
  unfolding non_id_def by (rule distinct_map_filter) simp

lemma updatedAt_in_updates: "(''updatedAt'', JStr now) \<in> set (updatesWithTimestamp now updates)"
  unfolding updatesWithTimestamp_def by (induction updates) auto

lemma non_id_enumerate_mem:
  "(k, v) \<in> set es \<Longrightarrow> k \<noteq> ''id'' \<Longrightarrow> \<exists>i. (i, k, v) \<in> set (non_id (enumerate n es))"
  by (induction es arbitrary: n) (auto simp: non_id_def)

lemma parts_nonempty: "updateExpressionParts (build_update now updates) \<noteq> []"
proof -
  obtain i where "(i, ''updatedAt'', JStr now) \<in> set (non_id (enumerate 0 (updatesWithTimestamp now updates)))"
    using non_id_enumerate_mem [OF updatedAt_in_updates] by fastforce
  then have "non_id (enumerate 0 (updatesWithTimestamp now updates)) \<noteq> []" by auto
  then show ?thesis by (simp add: build_update_eq)
qed

lemma map_of_names:
  "distinct (map fst F) \<Longrightarrow> e \<in> set F \<Longrightarrow> map_of (map name_of F) (attrName (fst e)) = Some (fst (snd e))"
  by (induction F) (auto simp: name_of_def rev_image_eqI)

lemma keys_non_id:
  "(\<lambda>e. fst (snd e)) ` set (non_id (enumerate n es)) = fst ` set es - {''id''}"
  by (induction es arbitrary: n) (auto simp: non_id_def rev_image_eqI)

lemma distinct_keys_non_id:
  "distinct (map fst es) \<Longrightarrow> distinct (map (\<lambda>e. fst (snd e)) (non_id (enumerate n es)))"
proof (induction es arbitrary: n)
  case Nil
  then show ?case by (simp add: non_id_def)
next
  case (Cons e es)
  have sub: "(\<lambda>e. fst (snd e)) ` set (non_id (enumerate (Suc n) es)) \<subseteq> fst ` set es"
    by (auto simp: keys_non_id)
  have ih: "distinct (map (\<lambda>e. fst (snd e)) (non_id (enumerate (Suc n) es)))"
    using Cons by simp
  have step: "non_id (enumerate n (e # es)) =
      (if fst e \<noteq> ''id'' then [(n, e)] else []) @ non_id (enumerate (Suc n) es)"
    by (simp add: non_id_def)
  from Cons.prems have "fst e \<notin> fst ` set es" by simp
  with sub have "fst e \<notin> (\<lambda>e. fst (snd e)) ` set (non_id (enumerate (Suc n) es))" by blast
  with ih show ?case unfolding step by simp
qed

lemma map_snd_non_id: "map snd (non_id (enumerate n es)) = filter (\<lambda>p. fst p \<noteq> ''id'') es"
  by (induction es arbitrary: n) (simp_all add: non_id_def)

lemma map_of_plain_values:
  "distinct (map fst F) \<Longrightarrow> e \<in> set F
   \<Longrightarrow> map_of (map value_of F) (attrValue (fst e)) = Some (snd (snd e))"
  by (induction F) (auto simp: value_of_def rev_image_eqI)

lemma string_of_nat_digits:
  "string_of_nat 0 = ''0''" "string_of_nat 1 = ''1''" "string_of_nat 2 = ''2''" "string_of_nat 3 = ''3''"
  by code_simp+

lemma string_of_nat_Suc_0: "string_of_nat (Suc 0) = ''1''"
  using string_of_nat_digits(2) by simp

lemma attrName_neq_attrValue: "attrName i \<noteq> attrValue j"
  by (simp add: attrName_def attrValue_def)

lemma UpdateExpression_text:
  "UpdateExpression (map clause_of F)
     = ''SET '' @ join '', '' (map (\<lambda>i. attrName i @ '' = '' @ attrValue i) (map fst F))"
  by (simp add: UpdateExpression_def clause_of_def comp_def)

subsection \<open>What the store does with a command\<close>

lemma values_marshalled:
  "list_all (\<lambda>e. snd (snd e) \<noteq> JUndefined) F
   \<Longrightarrow> marshalled (map value_of F) = map (\<lambda>e. (attrValue (fst e), convert (snd (snd e)))) F"
  by (induction F) (auto simp: marshalled_def value_of_def)

lemma map_of_converted_values:
  "distinct (map fst F) \<Longrightarrow> e \<in> set F
   \<Longrightarrow> map_of (map (\<lambda>e. (attrValue (fst e), convert (snd (snd e)))) F) (attrValue (fst e))
       = Some (convert (snd (snd e)))"
  by (induction F) (auto simp: rev_image_eqI)

lemma resolve_tables:
  assumes "distinct (map fst F)" and "set G \<subseteq> set F"
  shows "resolve (map clause_of G) (map name_of F)
           (map (\<lambda>e. (attrValue (fst e), convert (snd (snd e)))) F)
         = Some (map (\<lambda>e. (fst (snd e), convert (snd (snd e)))) G)"
  using assms(2)
proof (induction G)
  case Nil
  then show ?case by simp
next
  case (Cons g G)
  then have mem: "g \<in> set F" and sub: "set G \<subseteq> set F" by simp_all
  have n: "map_of (map name_of F) (attrName (fst g)) = Some (fst (snd g))"
    using assms(1) mem by (rule map_of_names)
  have v: "map_of (map (\<lambda>e. (attrValue (fst e), convert (snd (snd e)))) F) (attrValue (fst g))
      = Some (convert (snd (snd g)))"
    using assms(1) mem by (rule map_of_converted_values)
  show ?case using n v Cons.IH [OF sub] by (simp add: clause_of_def)
qed

lemma sent_fields_non_id:
  "map snd (non_id (enumerate 0 (updatesWithTimestamp now updates))) = sent_fields now updates"
  by (simp add: map_snd_non_id sent_fields_def)

lemma fields_of_non_id:
  "map (\<lambda>e. (fst (snd e), convert (snd (snd e)))) (non_id (enumerate 0 (updatesWithTimestamp now updates)))
   = map (map_prod id convert) (sent_fields now updates)"
proof -
  have "map (\<lambda>e. (fst (snd e), convert (snd (snd e)))) F = map (map_prod id convert) (map snd F)"
    for F :: "(nat \<times> string \<times> jsval) list"
    by (induction F) auto
  then show ?thesis by (simp only: sent_fields_non_id)
qed

lemma values_can_marshall:
  "list_all (\<lambda>p. can_marshall (snd p)) (expressionAttributeValues (build_update now updates))
   \<longleftrightarrow> list_all (\<lambda>p. can_marshall (snd p)) (sent_fields now updates)"
proof -
  have "list_all (\<lambda>p. can_marshall (snd p)) (map value_of F)
      \<longleftrightarrow> list_all (\<lambda>p. can_marshall (snd p)) (map snd F)" for F :: "(nat \<times> string \<times> jsval) list"
    by (induction F) (auto simp: value_of_def)
  then show ?thesis by (simp only: build_update_eq builder.simps sent_fields_non_id)
qed

lemma values_defined:
  "list_all (\<lambda>e. snd (snd e) \<noteq> JUndefined) (non_id (enumerate 0 (updatesWithTimestamp now updates)))
   \<longleftrightarrow> list_all (\<lambda>p. snd p \<noteq> JUndefined) (sent_fields now updates)"
proof -
  have "list_all (\<lambda>e. snd (snd e) \<noteq> JUndefined) F \<longleftrightarrow> list_all (\<lambda>p. snd p \<noteq> JUndefined) (map snd F)"
    for F :: "(nat \<times> string \<times> jsval) list"
    by (induction F) auto
  then show ?thesis by (simp only: sent_fields_non_id)
qed

lemma marshall_key: "marshall [(''id'', JStr ident)] = Some [(''id'', convert (JStr ident))]"
  by (simp add: marshall_def marshalled_def)

lemma key_of_marshalled_key:
  "key_of [(''id'', convert (JStr ident))] = (if ident \<noteq> [] then Some ident else None)"
  by (simp add: key_of_def)

lemma lookup_item_has_key: "lookup_item tbl k = Some it \<Longrightarrow> has_key k it"
  by (auto simp: lookup_item_def find_Some_iff)

lemma find_append_None: "find P xs = None \<Longrightarrow> find P (xs @ ys) = find P ys"
  by (induction xs) (auto split: if_splits)

lemma lookup_item_insert_at:
  "lookup_item tbl k = None \<Longrightarrow> has_key k it \<Longrightarrow> lookup_item (insert_at n it tbl) k = Some it"
proof -
  assume a: "lookup_item tbl k = None" "has_key k it"
  from a(1) have "\<forall>x \<in> set tbl. \<not> has_key k x" by (simp add: lookup_item_def find_None_iff)
  then have "\<forall>x \<in> set (take n tbl). \<not> has_key k x" by (meson in_set_takeD)
  then have "find (has_key k) (take n tbl) = None" by (simp add: find_None_iff)
  with a(2) show ?thesis by (simp add: lookup_item_def insert_at_def find_append_None)
qed

lemma lookup_item_replace:
  "has_key k new \<Longrightarrow> lookup_item tbl k = Some old \<Longrightarrow> lookup_item (replace_item k new tbl) k = Some new"
  by (induction tbl) (auto simp: lookup_item_def replace_item_def)

lemma map_of_assign_all_other:
  "k \<notin> fst ` set asg \<Longrightarrow> map_of (assign_all asg it) k = map_of it k"
  unfolding assign_all_def by (induction asg arbitrary: it) (auto simp: update_conv')

lemma map_of_assign_all_mem:
  "distinct (map fst asg) \<Longrightarrow> (k, x) \<in> set asg \<Longrightarrow> map_of (assign_all asg it) k = Some x"
proof (induction asg arbitrary: it)
  case Nil
  then show ?case by simp
next
  case (Cons a asg)
  show ?case
  proof (cases "(k, x) \<in> set asg")
    case True
    with Cons have "map_of (assign_all asg (AList.update (fst a) (snd a) it)) k = Some x" by simp
    then show ?thesis by (simp add: assign_all_def)
  next
    case False
    with Cons.prems have eq: "a = (k, x)" by auto
    from Cons.prems(1) eq have "k \<notin> fst ` set asg" by auto
    then have "map_of (assign_all asg (AList.update k x it)) k = map_of (AList.update k x it) k"
      by (rule map_of_assign_all_other)
    then show ?thesis using eq by (simp add: assign_all_def update_conv')
  qed
qed

text \<open>A failing call leaves the table; a successful update replaced the item of the key
  by the item with valid assignments made.\<close>

lemma exec_Inl_table: "exec w c = (Inl e, tbl') \<Longrightarrow> tbl' = table w"
  by (cases c) (auto split: option.splits if_splits prod.splits)

lemma send_Inl_table: "send fault cmd w = (Inl e, tbl') \<Longrightarrow> tbl' = table w"
  by (auto simp: send_def split: option.splits dest: exec_Inl_table)

lemma send_update_Inr:
  assumes "send fault (UpdateCommand tn [(''id'', JStr ident)] cl nm vals cond) w = (Inr res, tbl')"
  shows "\<exists>asg old. ident \<noteq> [] \<and> valid_update (indexes w) asg \<and> lookup_item (table w) ident = Some old
           \<and> Attributes res = Some (assign_all asg old)
           \<and> tbl' = replace_item ident (assign_all asg old) (table w)"
  using assms
  by (fastforce simp: send_def marshall_key key_of_def no_output_def
      split: option.splits if_splits)

subsection \<open>The operations on a store that answers\<close>

lemma send_update:
  assumes "ident \<noteq> []" and "updatable (indexes w) now updates"
  shows "send None (UpdateCommand tn [(''id'', JStr ident)]
             (updateExpressionParts (build_update now updates))
             (expressionAttributeNames (build_update now updates))
             (expressionAttributeValues (build_update now updates)) (attribute_exists ''id'')) w
       = (case lookup_item (table w) ident of
            None \<Rightarrow> (Inl ConditionalCheckFailedException, table w)
          | Some old \<Rightarrow>
              (Inr (no_output \<lparr> Attributes :=
                      Some (assign_all (map (map_prod id convert) (sent_fields now updates)) old) \<rparr>),
               replace_item ident
                 (assign_all (map (map_prod id convert) (sent_fields now updates)) old) (table w)))"
proof -
  let ?F = "non_id (enumerate 0 (updatesWithTimestamp now updates))"
  let ?asg = "map (map_prod id convert) (sent_fields now updates)"
  let ?cv = "map (\<lambda>e. (attrValue (fst e), convert (snd (snd e)))) ?F"
  from assms(2) have cm: "list_all (\<lambda>p. can_marshall (snd p)) (sent_fields now updates)"
    and df: "list_all (\<lambda>p. snd p \<noteq> JUndefined) (sent_fields now updates)"
    and di: "distinct (map fst (sent_fields now updates))"
    and ix: "attributes_ok (indexes w) ?asg"
    by (auto simp: updatable_def list_all_iff)
  have vals: "marshall (expressionAttributeValues (build_update now updates)) = Some ?cv"
  proof -
    have "list_all (\<lambda>p. can_marshall (snd p)) (expressionAttributeValues (build_update now updates))"
      using cm by (simp only: values_can_marshall)
    moreover have "marshalled (expressionAttributeValues (build_update now updates)) = ?cv"
      using df by (simp add: build_update_eq values_marshalled values_defined)
    ultimately show ?thesis by (simp add: marshall_def)
  qed
  have res: "resolve (updateExpressionParts (build_update now updates))
      (expressionAttributeNames (build_update now updates)) ?cv = Some ?asg"
    using resolve_tables [OF distinct_fst_non_id subset_refl, of 0 "updatesWithTimestamp now updates"]
    by (simp add: build_update_eq fields_of_non_id)
  have fsts: "map fst ?asg = map fst (sent_fields now updates)" by simp
  have "''id'' \<notin> fst ` set (sent_fields now updates)" by (auto simp: sent_fields_def)
  moreover have "fst ` set ?asg = fst ` set (sent_fields now updates)"
    by (simp add: image_image)
  ultimately have noid: "''id'' \<notin> fst ` set ?asg" by (simp only: simp_thms)
  have "distinct (map fst ?asg)" using di fsts by (simp only: simp_thms)
  with noid ix have valid: "valid_update (indexes w) ?asg"
    unfolding valid_update_def by blast
  have key: "key_of [(''id'', convert (JStr ident))] = Some ident"
    using assms(1) by (simp add: key_of_def)
  have cond: "eval_condition (attribute_exists ''id'') (lookup_item (table w) ident)
      \<longleftrightarrow> lookup_item (table w) ident \<noteq> None"
  proof (cases "lookup_item (table w) ident")
    case None
    then show ?thesis by simp
  next
    case (Some old)
    from lookup_item_has_key [OF this] Some show ?thesis by (simp add: has_key_def)
  qed
  show ?thesis
    using vals res valid key cond
    by (simp add: send_def marshall_key split: option.splits)
qed

lemma update_unfold:
  "update r now fault ident updates w =
     (case send fault
              (UpdateCommand (tableName r) [(''id'', JStr ident)]
                 (updateExpressionParts (build_update now updates))
                 (expressionAttributeNames (build_update now updates))
                 (expressionAttributeValues (build_update now updates)) (attribute_exists ''id'')) w of
        (Inr result, tbl') \<Rightarrow>
          (Inr (Attributes result),
           logger_info r (''Updated '' @ entityName r) [(''id'', Some (JStr ident))] (w \<lparr> table := tbl' \<rparr>))
      | (Inl error, tbl') \<Rightarrow>
          if ename error = ''ConditionalCheckFailedException''
          then (Inl (NotFoundError (entityName r) (Some ident)), w \<lparr> table := tbl' \<rparr>)
          else (Inl (DatabaseError (''Failed to update '' @ entityName r)),
                logger_error r (''Failed to update '' @ entityName r)
                  [(''tableName'', Some (JStr (tableName r))),
                   (''id'', Some (JStr ident)),
                   (''error'', Some (JStr (String_of_error error)))]
                  (w \<lparr> table := tbl' \<rparr>)))"
  using parts_nonempty [of now updates] by (simp add: update_def Let_def)

lemma update_found:
  assumes "stored w ident = Some old" and "ident \<noteq> []" and "updatable (indexes w) now updates"
  shows "update r now None ident updates w =
     (Inr (Some (assign_all (map (map_prod id convert) (sent_fields now updates)) old)),
      logger_info r (''Updated '' @ entityName r) [(''id'', Some (JStr ident))]
        (w \<lparr> table := replace_item ident
                 (assign_all (map (map_prod id convert) (sent_fields now updates)) old) (table w) \<rparr>))"
  using assms(1)
  by (simp add: update_unfold send_update [OF assms(2,3)] stored_def no_output_def)

lemma update_missing:
  assumes "stored w ident = None" and "ident \<noteq> []" and "updatable (indexes w) now updates"
  shows "update r now None ident updates w = (Inl (NotFoundError (entityName r) (Some ident)), w)"
  using assms(1)
  by (simp add: update_unfold send_update [OF assms(2,3)] stored_def ConditionalCheckFailedException_def)

lemma delete_missing:
  assumes "stored w ident = None" and "ident \<noteq> []"
  shows "delete r None ident w = (Inl (NotFoundError (entityName r) (Some ident)), w)"
  using assms
  by (simp add: stored_def delete_def send_def marshall_key key_of_def ConditionalCheckFailedException_def)

lemma map_of_itemWithTimestamps_id:
  "map_of (itemWithTimestamps now it) ''id'' = map_of it ''id''"
  by (simp add: itemWithTimestamps_def update_conv')

lemma map_of_itemWithTimestamps:
  "map_of (itemWithTimestamps now e) ''createdAt'' = Some (JStr now)"
  "map_of (itemWithTimestamps now e) ''updatedAt'' = Some (JStr now)"
  by (simp_all add: itemWithTimestamps_def update_conv')

lemma accepted_key:
  assumes "map_of it ''id'' = Some (JStr ident)" and "accepted ixs (itemWithTimestamps now it)"
  shows "ident \<noteq> []" and "key_of (marshalled (itemWithTimestamps now it)) = Some ident"
    and "has_key ident (marshalled (itemWithTimestamps now it))"
proof -
  have m: "map_of (marshalled (itemWithTimestamps now it)) ''id'' = Some (convert (JStr ident))"
    using assms(1) by (intro map_of_marshalled) (simp_all add: map_of_itemWithTimestamps_id)
  from assms(2) have "key_of (marshalled (itemWithTimestamps now it)) \<noteq> None"
    by (simp add: accepted_def)
  with m show ne: "ident \<noteq> []" by (auto simp: key_of_def split: if_splits)
  with m show "key_of (marshalled (itemWithTimestamps now it)) = Some ident"
    by (simp add: key_of_def)
  from m ne show "has_key ident (marshalled (itemWithTimestamps now it))"
    by (simp add: has_key_def)
qed

lemma send_put:
  assumes "map_of it ''id'' = Some (JStr ident)" and "accepted (indexes w) (itemWithTimestamps now it)"
  shows "send None (PutCommand tn (itemWithTimestamps now it) (attribute_not_exists ''id'')) w
       = (case lookup_item (table w) ident of
            None \<Rightarrow> (Inr no_output,
                      insert_at (placement w ident (table w)) (marshalled (itemWithTimestamps now it)) (table w))
          | Some old \<Rightarrow> (Inl ConditionalCheckFailedException, table w))"
proof -
  from assms(2) have m: "marshall (itemWithTimestamps now it) = Some (marshalled (itemWithTimestamps now it))"
    and ix: "attributes_ok (indexes w) (marshalled (itemWithTimestamps now it))"
    by (simp_all add: accepted_def marshall_def)
  note k = accepted_key(2) [OF assms]
  have cond: "eval_condition (attribute_not_exists ''id'') (lookup_item (table w) ident)
      \<longleftrightarrow> lookup_item (table w) ident = None"
  proof (cases "lookup_item (table w) ident")
    case None
    then show ?thesis by simp
  next
    case (Some old)
    from lookup_item_has_key [OF this] Some show ?thesis by (simp add: has_key_def)
  qed
  show ?thesis using m ix k cond by (simp add: send_def split: option.splits)
qed

lemma create_fresh:
  assumes "map_of it ''id'' = Some (JStr ident)" and "accepted (indexes w) (itemWithTimestamps now it)"
    and "stored w ident = None"
  shows "create r now None it w =
     (Inr (itemWithTimestamps now it),
      logger_info r (''Created '' @ entityName r) [(''id'', Some (JStr ident))]
        (w \<lparr> table := insert_at (placement w ident (table w))
                         (marshalled (itemWithTimestamps now it)) (table w) \<rparr>))"
  using assms(1,3) by (simp add: create_def send_put [OF assms(1,2)] stored_def)

lemma create_duplicate:
  assumes "map_of it ''id'' = Some (JStr ident)" and "accepted (indexes w) (itemWithTimestamps now it)"
    and "stored w ident = Some old"
  shows "create r now None it w =
     (Inl (DatabaseError (entityName r @ '' with this ID already exists'')), w)"
  using assms(1,3)
  by (simp add: create_def send_put [OF assms(1,2)] stored_def ConditionalCheckFailedException_def)

lemma stored_after_create:
  assumes "map_of it ''id'' = Some (JStr ident)" and "accepted (indexes w) (itemWithTimestamps now it)"
    and "stored w ident = None"
  shows "stored (snd (create r now None it w)) ident = Some (marshalled (itemWithTimestamps now it))"
proof -
  from assms(3) have "lookup_item (table w) ident = None" by (simp add: stored_def)
  from lookup_item_insert_at [OF this accepted_key(3) [OF assms(1,2)]]
  show ?thesis by (simp add: create_fresh [OF assms] stored_def logger_info_def)
qed

lemma indexes_after_create: "indexes (snd (create r now fault it w)) = indexes w"
  by (simp add: create_def logger_info_def logger_error_def split: prod.splits sum.splits)

lemma indexes_after_update: "indexes (snd (update r now fault ident updates w)) = indexes w"
  by (simp add: update_unfold logger_info_def logger_error_def split: prod.splits sum.splits)

lemma getById_ok: "ident \<noteq> [] \<Longrightarrow> getById r None ident w = (Inr (stored w ident), w)"
  by (simp add: getById_def send_def marshall_key key_of_def no_output_def stored_def)

lemma table_logger [simp]:
  "table (logger_info r m d w) = table w" "table (logger_error r m d w) = table w"
  by (simp_all add: logger_info_def logger_error_def)

lemma stored_logger [simp]:
  "stored (logger_info r m d w) = stored w" "stored (logger_error r m d w) = stored w"
  by (simp_all add: stored_def fun_eq_iff)

lemma table_after_update:
  "table (snd (update r now fault ident updates w))
     = snd (send fault
              (UpdateCommand (tableName r) [(''id'', JStr ident)]
                 (updateExpressionParts (build_update now updates))
                 (expressionAttributeNames (build_update now updates))
                 (expressionAttributeValues (build_update now updates)) (attribute_exists ''id'')) w)"
  by (simp add: update_unfold split: prod.splits sum.splits)

lemma update_outcome:
  "table (snd (update r now fault ident updates w)) = table w
   \<or> (\<exists>asg old. ident \<noteq> [] \<and> valid_update (indexes w) asg \<and> lookup_item (table w) ident = Some old
         \<and> table (snd (update r now fault ident updates w))
             = replace_item ident (assign_all asg old) (table w))"
proof -
  let ?cmd = "UpdateCommand (tableName r) [(''id'', JStr ident)]
                 (updateExpressionParts (build_update now updates))
                 (expressionAttributeNames (build_update now updates))
                 (expressionAttributeValues (build_update now updates)) (attribute_exists ''id'')"
  obtain res tbl' where s: "send fault ?cmd w = (res, tbl')" by (cases "send fault ?cmd w")
  show ?thesis
  proof (cases res)
    case (Inl e)
    with s have "tbl' = table w" by (auto dest: send_Inl_table)
    with s show ?thesis by (simp add: table_after_update)
  next
    case (Inr out)
    with s have "send fault ?cmd w = (Inr out, tbl')" by simp
    from send_update_Inr [OF this] s show ?thesis by (auto simp: table_after_update)
  qed
qed

lemma update_missing_table:
  "stored w ident = None \<Longrightarrow> table (snd (update r now fault ident updates w)) = table w"
  using update_outcome [of r now fault ident updates w] by (auto simp: stored_def)

lemma update_keeps_id:
  assumes "stored w ident = Some old"
  shows "attribute (snd (update r now fault ident updates w)) ident ''id'' = attribute w ident ''id''"
proof -
  from update_outcome [of r now fault ident updates w]
  consider "table (snd (update r now fault ident updates w)) = table w"
    | asg old' where "valid_update (indexes w) asg" "lookup_item (table w) ident = Some old'"
        "table (snd (update r now fault ident updates w)) = replace_item ident (assign_all asg old') (table w)"
    by blast
  then show ?thesis
  proof cases
    case 1
    then show ?thesis by (simp add: attribute_def stored_def)
  next
    case 2
    with assms have o: "old' = old" by (simp add: stored_def)
    from 2(1) have "''id'' \<notin> fst ` set asg" by (simp add: valid_update_def)
    then have i: "map_of (assign_all asg old) ''id'' = map_of old ''id''"
      by (rule map_of_assign_all_other)
    from 2(2) o have "has_key ident old" by (auto dest: lookup_item_has_key)
    with i have "has_key ident (assign_all asg old)" by (simp add: has_key_def)
    from lookup_item_replace [OF this] 2(2) o
    have "lookup_item (replace_item ident (assign_all asg old) (table w)) ident = Some (assign_all asg old)"
      by simp
    with 2(3) o i assms show ?thesis by (simp add: attribute_def stored_def)
  qed
qed

lemma delete_missing_table:
  "stored w ident = None \<Longrightarrow> table (snd (delete r fault ident w)) = table w"
  by (auto simp: delete_def send_def stored_def marshall_key key_of_def
      split: option.splits if_splits prod.splits sum.splits)

lemma create_failure_table:
  "fst (create r now fault it w) = Inl err \<Longrightarrow> table (snd (create r now fault it w)) = table w"
  by (auto simp: create_def split: prod.splits sum.splits if_splits dest: send_Inl_table)

lemma create_success_result:
  "fst (create r now fault it w) = Inr res \<Longrightarrow> res = itemWithTimestamps now it"
  by (auto simp: create_def split: prod.splits sum.splits if_splits)

text \<open>What an applied update leaves in the store, attribute by attribute.\<close>

lemma stored_after_update:
  assumes "stored w ident = Some old" and "ident \<noteq> []" and "updatable (indexes w) now updates"
  shows "stored (snd (update r now None ident updates w)) ident
      = Some (assign_all (map (map_prod id convert) (sent_fields now updates)) old)"
    and "fst (update r now None ident updates w)
      = Inr (stored (snd (update r now None ident updates w)) ident)"
proof -
  let ?new = "assign_all (map (map_prod id convert) (sent_fields now updates)) old"
  from assms(1) have l: "lookup_item (table w) ident = Some old" by (simp add: stored_def)
  then have "has_key ident old" by (rule lookup_item_has_key)
  moreover have "''id'' \<notin> fst ` set (map (map_prod id convert) (sent_fields now updates))"
    by (auto simp: sent_fields_def)
  ultimately have "has_key ident ?new" by (simp add: has_key_def map_of_assign_all_other)
  then have "lookup_item (replace_item ident ?new (table w)) ident = Some ?new"
    using l by (rule lookup_item_replace)
  then show s: "stored (snd (update r now None ident updates w)) ident = Some ?new"
    by (simp add: update_found [OF assms] stored_def)
  show "fst (update r now None ident updates w)
      = Inr (stored (snd (update r now None ident updates w)) ident)"
    unfolding s by (simp add: update_found [OF assms])
qed

lemma attribute_after_update:
  assumes "stored w ident = Some old" and "ident \<noteq> []" and "updatable (indexes w) now updates"
  shows "k \<notin> fst ` set updates \<Longrightarrow> k \<noteq> ''updatedAt''
         \<Longrightarrow> attribute (snd (update r now None ident updates w)) ident k = attribute w ident k"
    and "(k, v) \<in> set (sent_fields now updates)
         \<Longrightarrow> attribute (snd (update r now None ident updates w)) ident k = Some (convert v)"
proof -
  let ?asg = "map (map_prod id convert) (sent_fields now updates)"
  have a: "attribute (snd (update r now None ident updates w)) ident k = map_of (assign_all ?asg old) k" for k
    by (simp add: attribute_def stored_after_update(1) [OF assms])
  have b: "attribute w ident k = map_of old k" for k
    by (simp add: attribute_def assms(1))
  show "attribute (snd (update r now None ident updates w)) ident k = attribute w ident k"
    if "k \<notin> fst ` set updates" "k \<noteq> ''updatedAt''"
  proof -
    have "fst ` set (updatesWithTimestamp now updates) = insert ''updatedAt'' (fst ` set updates)"
      by (simp add: updatesWithTimestamp_def dom_update)
    moreover have "set (sent_fields now updates) \<subseteq> set (updatesWithTimestamp now updates)"
      by (simp add: sent_fields_def)
    ultimately have "fst ` set (sent_fields now updates) \<subseteq> insert ''updatedAt'' (fst ` set updates)"
      by blast
    with that have "k \<notin> fst ` set (sent_fields now updates)" by blast
    then have "k \<notin> fst ` set ?asg" by (simp add: image_image)
    then show ?thesis by (simp add: a b map_of_assign_all_other)
  qed
  show "attribute (snd (update r now None ident updates w)) ident k = Some (convert v)"
    if "(k, v) \<in> set (sent_fields now updates)"
  proof -
    from assms(3) have "distinct (map fst (sent_fields now updates))" by (simp add: updatable_def)
    then have d: "distinct (map fst ?asg)" by simp
    from that have "map_prod id convert (k, v) \<in> map_prod id convert ` set (sent_fields now updates)"
      by (rule imageI)
    then have "(k, convert v) \<in> set ?asg" by simp
    from map_of_assign_all_mem [OF d this] show ?thesis by (simp add: a)
  qed
qed

subsection \<open>Creation and the mutation of a missing identifier\<close>

lemma example_worlds [simp]:
  "table empty_world = []" "console empty_world = []"
  "indexes empty_world = [(''category-index'', ''category'')]"
  "placement empty_world k tbl = length tbl"
  "console hammer_world = []"
  "indexes hammer_world = [(''category-index'', ''category'')]"
  "placement hammer_world k tbl = length tbl"
  "tableName products = ''fitit-products''" "entityName products = ''Product''"
  by (simp_all add: empty_world_def hammer_world_def products_def)

lemma stored_empty_world: "stored empty_world ident = None"
  by (simp add: stored_def lookup_item_def)

lemma stored_hammer:
  "stored hammer_world ''p1'' = Some (hammer @ [(''createdAt'', JStr ''2024-01-01T00:00:00.000Z''),
                                               (''updatedAt'', JStr ''2024-01-01T00:00:00.000Z'')])"
  by (simp add: stored_def hammer_world_def hammer_def lookup_item_def has_key_def)

lemma stored_hammer_other: "ident \<noteq> ''p1'' \<Longrightarrow> stored hammer_world ident = None"
  by (simp add: stored_def hammer_world_def hammer_def lookup_item_def has_key_def)

lemma accepted_hammer:
  "accepted [(''category-index'', ''category'')] (itemWithTimestamps ''2024-01-01T00:00:00.000Z'' hammer)"
  by (simp add: accepted_def itemWithTimestamps_def hammer_def marshalled_def key_of_def
      attributes_ok_def index_value_ok_def MAX_SAFE_INTEGER_def)

lemma field_errors:
  "name (DatabaseError m) = ''DatabaseError''" "message (DatabaseError m) = m"
  "statusCode (DatabaseError m) = 500" "code (DatabaseError m) = ''DATABASE_ERROR''"
  "isOperational (DatabaseError m) = False"
  "name (NotFoundError res i) = ''NotFoundError''"
  "statusCode (NotFoundError res i) = 404" "code (NotFoundError res i) = ''NOT_FOUND''"
  "details (NotFoundError res i) = Some [(''resource'', Some res), (''id'', i)]"
  "isOperational (NotFoundError res i) = True"
  by (simp_all add: DatabaseError_def NotFoundError_def)

text \<open>
  C1, as stated, fails at an entity whose \<open>id\<close> is the empty string: the client marshals
  the empty string to \<open>null\<close>, the store refuses an item whose key is not a string, and the
  first \<open>create\<close> already fails, with the \<open>DatabaseError\<close> of a failed store call and not
  with the one that signals a duplicate; nothing is stored.
\<close>

theorem create_with_empty_id_fails:
  "fst (create products ''2024-01-01T00:00:00.000Z'' None [(''id'', JStr ''''), (''name'', JStr ''Hammer'')] empty_world)
       = Inl (DatabaseError ''Failed to create Product'')
   \<and> table (snd (create products ''2024-01-01T00:00:00.000Z'' None
                    [(''id'', JStr ''''), (''name'', JStr ''Hammer'')] empty_world)) = []"
  by (simp add: create_def send_def marshall_def marshalled_def itemWithTimestamps_def key_of_def
      ValidationException_def)

text \<open>
  C1, amended. Take two entities with the same identifier that the client can marshal and
  the store accepts (the identifier a non-empty string, every number finite, safe and
  within the range the store keeps, no attribute name empty, the attributes of the
  secondary indexes non-empty strings). When the identifier is not yet
  stored, the first \<open>create\<close> succeeds and files the entity as the client marshals it; the
  second \<open>create\<close>, whatever its other fields and whenever it comes, fails with the
  \<open>DatabaseError\<close> whose message is the entity name followed by
  \<^verbatim>\<open> with this ID already exists\<close>, and leaves the world exactly as the first call left it:
  the stored record is still the first payload.
\<close>

theorem create_uniqueness:
  assumes "map_of e ''id'' = Some (JStr ident)"
    and "map_of e' ''id'' = Some (JStr ident)"
    and "accepted (indexes w) (itemWithTimestamps t1 e)"
    and "accepted (indexes w) (itemWithTimestamps t2 e')"
    and "stored w ident = None"
  shows "fst (create r t1 None e w) = Inr (itemWithTimestamps t1 e)
    \<and> stored (snd (create r t1 None e w)) ident = Some (marshalled (itemWithTimestamps t1 e))
    \<and> create r t2 None e' (snd (create r t1 None e w))
        = (Inl (DatabaseError (entityName r @ '' with this ID already exists'')),
           snd (create r t1 None e w))
    \<and> name (DatabaseError (entityName r @ '' with this ID already exists'')) = ''DatabaseError''
    \<and> message (DatabaseError (entityName r @ '' with this ID already exists''))
        = entityName r @ '' with this ID already exists''
    \<and> code (DatabaseError (entityName r @ '' with this ID already exists'')) = ''DATABASE_ERROR''"
proof -
  have first: "fst (create r t1 None e w) = Inr (itemWithTimestamps t1 e)"
    by (simp add: create_fresh [OF assms(1,3,5)])
  have kept: "stored (snd (create r t1 None e w)) ident = Some (marshalled (itemWithTimestamps t1 e))"
    using assms(1,3,5) by (rule stored_after_create)
  have "accepted (indexes (snd (create r t1 None e w))) (itemWithTimestamps t2 e')"
    using assms(4) by (simp only: indexes_after_create)
  with assms(2) have second: "create r t2 None e' (snd (create r t1 None e w))
        = (Inl (DatabaseError (entityName r @ '' with this ID already exists'')),
           snd (create r t1 None e w))"
    using kept by (rule create_duplicate)
  from first kept second show ?thesis by (simp only: field_errors simp_thms)
qed

theorem create_uniqueness_witness:
  "map_of hammer ''id'' = Some (JStr ''p1'')
   \<and> map_of [(''id'', JStr ''p1''), (''name'', JStr ''Saw'')] ''id'' = Some (JStr ''p1'')
   \<and> accepted (indexes empty_world) (itemWithTimestamps ''2024-01-01T00:00:00.000Z'' hammer)
   \<and> accepted (indexes empty_world)
        (itemWithTimestamps ''2024-01-02T00:00:00.000Z'' [(''id'', JStr ''p1''), (''name'', JStr ''Saw'')])
   \<and> stored empty_world ''p1'' = None
   \<and> fst (create products ''2024-01-01T00:00:00.000Z'' None hammer empty_world)
       = Inr (itemWithTimestamps ''2024-01-01T00:00:00.000Z'' hammer)
   \<and> stored (snd (create products ''2024-01-01T00:00:00.000Z'' None hammer empty_world)) ''p1''
       = Some (marshalled (itemWithTimestamps ''2024-01-01T00:00:00.000Z'' hammer))
   \<and> create products ''2024-01-02T00:00:00.000Z'' None [(''id'', JStr ''p1''), (''name'', JStr ''Saw'')]
         (snd (create products ''2024-01-01T00:00:00.000Z'' None hammer empty_world))
       = (Inl (DatabaseError (entityName products @ '' with this ID already exists'')),
          snd (create products ''2024-01-01T00:00:00.000Z'' None hammer empty_world))"
proof -
  have h1: "map_of hammer ''id'' = Some (JStr ''p1'')" by (simp add: hammer_def)
  have h2: "map_of [(''id'', JStr ''p1''), (''name'', JStr ''Saw'')] ''id'' = Some (JStr ''p1'')" by simp
  have h3: "accepted (indexes empty_world) (itemWithTimestamps ''2024-01-01T00:00:00.000Z'' hammer)"
    using accepted_hammer by simp
  have h4: "accepted (indexes empty_world)
        (itemWithTimestamps ''2024-01-02T00:00:00.000Z'' [(''id'', JStr ''p1''), (''name'', JStr ''Saw'')])"
    by (simp add: accepted_def itemWithTimestamps_def marshalled_def key_of_def
        attributes_ok_def index_value_ok_def)
  have h5: "stored empty_world ''p1'' = None" by (rule stored_empty_world)
  from create_uniqueness [OF h1 h2 h3 h4 h5, of products] h1 h2 h3 h4 h5 show ?thesis by blast
qed

text \<open>
  C2, as stated, fails at the empty identifier and at a payload the client cannot marshal.
  No item is stored under the empty string, yet \<open>update\<close> and \<open>delete\<close> of it do not raise
  \<open>NotFoundError\<close>: the key is marshalled to \<open>null\<close>, the store refuses the request before
  it looks at the condition, and the call logs the failure and raises the \<open>DatabaseError\<close>
  of a failed store call. Likewise \<open>update\<close> of the missing identifier \<open>p9\<close> with a number
  beyond the safe integers: the marshaller throws before anything is sent.
\<close>

theorem mutation_with_empty_id_not_NotFound:
  "stored hammer_world '''' = None
   \<and> fst (update products ''2024-06-01T00:00:00.000Z'' None '''' [(''name'', JStr ''Saw'')] hammer_world)
       = Inl (DatabaseError ''Failed to update Product'')
   \<and> fst (delete products None '''' hammer_world) = Inl (DatabaseError ''Failed to delete Product'')
   \<and> name (DatabaseError ''Failed to update Product'') \<noteq> name (NotFoundError ''Product'' (Some ''''))
   \<and> name (DatabaseError ''Failed to delete Product'') \<noteq> name (NotFoundError ''Product'' (Some ''''))
   \<and> length (console (snd (delete products None '''' hammer_world))) = 1
   \<and> stored hammer_world ''p9'' = None
   \<and> fst (update products ''2024-06-01T00:00:00.000Z'' None ''p9'' [(''price'', JNum 9007199254740992)] hammer_world)
       = Inl (DatabaseError ''Failed to update Product'')"
proof -
  have s: "stored hammer_world '''' = None" by (rule stored_hammer_other) simp
  have s9: "stored hammer_world ''p9'' = None" by (rule stored_hammer_other) simp
  have big: "marshall (expressionAttributeValues (build_update ''2024-06-01T00:00:00.000Z''
        [(''price'', JNum 9007199254740992)])) = None"
    by (simp add: marshall_def values_can_marshall sent_fields_def updatesWithTimestamp_def
        MAX_SAFE_INTEGER_def)
  have u9: "fst (update products ''2024-06-01T00:00:00.000Z'' None ''p9'' [(''price'', JNum 9007199254740992)] hammer_world)
       = Inl (DatabaseError ''Failed to update Product'')"
    using big
    by (simp add: update_unfold send_def marshall_key MarshallError_def)
  have vals: "marshall (expressionAttributeValues (build_update ''2024-06-01T00:00:00.000Z'' [(''name'', JStr ''Saw'')]))
      \<noteq> None"
    by (simp add: marshall_def values_can_marshall sent_fields_def updatesWithTimestamp_def)
  have u: "fst (update products ''2024-06-01T00:00:00.000Z'' None '''' [(''name'', JStr ''Saw'')] hammer_world)
       = Inl (DatabaseError ''Failed to update Product'')"
    using vals
    by (auto simp: update_unfold send_def marshall_key key_of_def ValidationException_def
        split: option.splits)
  have d: "fst (delete products None '''' hammer_world) = Inl (DatabaseError ''Failed to delete Product'')"
    by (simp add: delete_def send_def marshall_key key_of_def ValidationException_def)
  have c: "length (console (snd (delete products None '''' hammer_world))) = 1"
    by (simp add: delete_def send_def marshall_key key_of_def ValidationException_def
        logger_error_def log_event_def shouldLog_def currentLogLevel_def products_def)
  from s u d c s9 u9 show ?thesis by (simp add: field_errors)
qed

text \<open>
  C2, amended. On an identifier the store does not hold, neither \<open>update\<close> nor \<open>delete\<close>
  changes the table, whatever the payload and whether or not the store answers. When the
  identifier is a non-empty string, \<open>delete\<close> on a store that answers fails with
  \<open>NotFoundError\<close> and returns the world unchanged, and so does \<open>update\<close> with every
  payload that the client can marshal and the store accepts as an update request. The
  error has the name \<open>NotFoundError\<close>, the code \<open>NOT_FOUND\<close>, the status 404, and carries
  the entity name and the requested identifier in its message and in its details.
\<close>

theorem mutation_of_missing_id:
  assumes "stored w ident = None"
  shows "(ident \<noteq> [] \<and> updatable (indexes w) now updates \<longrightarrow>
           update r now None ident updates w = (Inl (NotFoundError (entityName r) (Some ident)), w))
    \<and> (ident \<noteq> [] \<longrightarrow> delete r None ident w = (Inl (NotFoundError (entityName r) (Some ident)), w))
    \<and> table (snd (update r now fault ident updates w)) = table w
    \<and> table (snd (delete r fault ident w)) = table w
    \<and> name (NotFoundError (entityName r) (Some ident)) = ''NotFoundError''
    \<and> code (NotFoundError (entityName r) (Some ident)) = ''NOT_FOUND''
    \<and> statusCode (NotFoundError (entityName r) (Some ident)) = 404
    \<and> (ident \<noteq> [] \<longrightarrow> message (NotFoundError (entityName r) (Some ident))
          = entityName r @ '' with ID '' @ [CHR 39] @ ident @ [CHR 39] @ '' not found'')
    \<and> details (NotFoundError (entityName r) (Some ident))
        = Some [(''resource'', Some (entityName r)), (''id'', Some ident)]"
proof -
  have m: "message (NotFoundError (entityName r) (Some ident))
          = entityName r @ '' with ID '' @ [CHR 39] @ ident @ [CHR 39] @ '' not found''" if "ident \<noteq> []"
    using that by (simp add: NotFoundError_def)
  from assms m show ?thesis
    by (simp add: update_missing delete_missing update_missing_table delete_missing_table field_errors)
qed

theorem mutation_of_missing_id_witness:
  "stored hammer_world ''p9'' = None
   \<and> ''p9'' \<noteq> []
   \<and> updatable (indexes hammer_world) ''2024-01-02T00:00:00.000Z'' [(''price'', JNum (2499 / 100))]
   \<and> update products ''2024-01-02T00:00:00.000Z'' None ''p9'' [(''price'', JNum (2499 / 100))] hammer_world
       = (Inl (NotFoundError ''Product'' (Some ''p9'')), hammer_world)
   \<and> delete products None ''p9'' hammer_world = (Inl (NotFoundError ''Product'' (Some ''p9'')), hammer_world)
   \<and> details (NotFoundError ''Product'' (Some ''p9''))
       = Some [(''resource'', Some ''Product''), (''id'', Some ''p9'')]"
proof -
  let ?p = "[(''price'', JNum (2499 / 100))]"
  have h: "stored hammer_world ''p9'' = None" by (rule stored_hammer_other) simp
  have n: "''p9'' \<noteq> []" by simp
  have u: "updatable (indexes hammer_world) ''2024-01-02T00:00:00.000Z'' ?p"
    by (simp add: updatable_def sent_fields_def updatesWithTimestamp_def attributes_ok_def
        MAX_SAFE_INTEGER_def)
  note t = mutation_of_missing_id [OF h, of "''2024-01-02T00:00:00.000Z''" ?p products None]
  from t n u have a: "update products ''2024-01-02T00:00:00.000Z'' None ''p9'' ?p hammer_world
       = (Inl (NotFoundError (entityName products) (Some ''p9'')), hammer_world)" by blast
  from t n have b: "delete products None ''p9'' hammer_world
       = (Inl (NotFoundError (entityName products) (Some ''p9'')), hammer_world)" by blast
  from h n u a b show ?thesis by (simp add: field_errors)
qed

subsection \<open>What an update writes\<close>

lemma mem_sent_fields:
  "(k, v) \<in> set updates \<Longrightarrow> k \<noteq> ''id'' \<Longrightarrow> k \<noteq> ''updatedAt'' \<Longrightarrow> (k, v) \<in> set (sent_fields now updates)"
proof -
  have "(k, v) \<in> set al \<Longrightarrow> k \<noteq> k' \<Longrightarrow> (k, v) \<in> set (AList.update k' v' al)"
    for al :: item and k' v'
    by (induction al) auto
  then show "(k, v) \<in> set updates \<Longrightarrow> k \<noteq> ''id'' \<Longrightarrow> k \<noteq> ''updatedAt''
      \<Longrightarrow> (k, v) \<in> set (sent_fields now updates)"
    by (simp add: sent_fields_def updatesWithTimestamp_def)
qed

lemma updatedAt_sent: "(''updatedAt'', JStr now) \<in> set (sent_fields now updates)"
  using updatedAt_in_updates [of now updates] by (simp add: sent_fields_def)

lemma updatable_hammer:
  "updatable [(''category-index'', ''category'')] now [(''id'', JStr ''other''), (''name'', v)]
   \<longleftrightarrow> v \<noteq> JUndefined \<and> can_marshall v \<and> storable (convert v)"
  by (auto simp: updatable_def sent_fields_def updatesWithTimestamp_def attributes_ok_def)

text \<open>
  C4, as stated, fails in its first half: the other fields are applied as the client
  marshals them, not as they were supplied. \<open>update\<close> of the stored \<open>p1\<close> with the payload
  \<^verbatim>\<open>{id: "other", name: ""}\<close> leaves \<open>null\<close>, not the empty string, as the stored name.
\<close>

theorem empty_name_stored_as_null:
  "attribute hammer_world ''p1'' ''name'' = Some (JStr ''Hammer'')
   \<and> attribute (snd (update products ''2024-06-01T00:00:00.000Z'' None ''p1''
          [(''id'', JStr ''other''), (''name'', JStr '''')] hammer_world)) ''p1'' ''name'' = Some JNull
   \<and> JNull \<noteq> JStr ''''"
proof -
  let ?p = "[(''id'', JStr ''other''), (''name'', JStr '''')]"
  have a: "attribute hammer_world ''p1'' ''name'' = Some (JStr ''Hammer'')"
    by (simp add: attribute_def stored_hammer hammer_def)
  have n: "''p1'' \<noteq> []" by simp
  have u: "updatable (indexes hammer_world) ''2024-06-01T00:00:00.000Z'' ?p"
    by (simp add: updatable_hammer)
  have "(''name'', JStr '''') \<in> set (sent_fields ''2024-06-01T00:00:00.000Z'' ?p)"
    by (rule mem_sent_fields) simp_all
  from attribute_after_update(2) [OF stored_hammer n u this, of products] a
  show ?thesis by simp
qed

text \<open>
  C4, amended. When the identifier is stored, the \<open>id\<close> attribute of its item after
  \<open>update\<close> is what it was before, namely the identifier, for every payload, also one that
  carries an \<open>id\<close> of its own, and whether the call succeeds or fails. When moreover the
  identifier is not empty and the payload is one the client can marshal and the store
  accepts, \<open>update\<close> on a store that answers succeeds, returns the item the store then
  holds, stores the reading of the clock as \<open>updatedAt\<close>, and stores every other field of
  the payload (\<open>id\<close> and \<open>updatedAt\<close> apart) with the supplied value as the client marshals
  it: the supplied value itself when it holds no empty string and no \<open>undefined\<close>.
\<close>

theorem update_never_writes_id:
  assumes "stored w ident = Some old"
  shows "attribute (snd (update r now fault ident updates w)) ident ''id'' = attribute w ident ''id''
    \<and> attribute w ident ''id'' = Some (JStr ident)
    \<and> (ident \<noteq> [] \<and> updatable (indexes w) now updates \<longrightarrow>
         fst (update r now None ident updates w)
           = Inr (stored (snd (update r now None ident updates w)) ident)
         \<and> attribute (snd (update r now None ident updates w)) ident ''updatedAt'' = Some (convert (JStr now))
         \<and> (\<forall>(k, v) \<in> set updates. k \<noteq> ''id'' \<and> k \<noteq> ''updatedAt'' \<longrightarrow>
               attribute (snd (update r now None ident updates w)) ident k = Some (convert v)
               \<and> (plain v \<longrightarrow> attribute (snd (update r now None ident updates w)) ident k = Some v)))"
proof -
  from assms have "has_key ident old" by (simp add: stored_def lookup_item_has_key)
  then have before: "attribute w ident ''id'' = Some (JStr ident)"
    by (simp add: attribute_def assms has_key_def)
  have kept: "attribute (snd (update r now fault ident updates w)) ident ''id'' = attribute w ident ''id''"
    using assms by (rule update_keeps_id)
  have applied: "fst (update r now None ident updates w)
           = Inr (stored (snd (update r now None ident updates w)) ident)
         \<and> attribute (snd (update r now None ident updates w)) ident ''updatedAt'' = Some (convert (JStr now))
         \<and> (\<forall>(k, v) \<in> set updates. k \<noteq> ''id'' \<and> k \<noteq> ''updatedAt'' \<longrightarrow>
               attribute (snd (update r now None ident updates w)) ident k = Some (convert v)
               \<and> (plain v \<longrightarrow> attribute (snd (update r now None ident updates w)) ident k = Some v))"
    if n: "ident \<noteq> []" and u: "updatable (indexes w) now updates"
  proof -
    have f: "attribute (snd (update r now None ident updates w)) ident k = Some (convert v)"
      if "(k, v) \<in> set updates" "k \<noteq> ''id''" "k \<noteq> ''updatedAt''" for k v
      using that by (intro attribute_after_update(2) [OF assms n u] mem_sent_fields)
    have t: "attribute (snd (update r now None ident updates w)) ident ''updatedAt'' = Some (convert (JStr now))"
      by (rule attribute_after_update(2) [OF assms n u updatedAt_sent])
    from f t stored_after_update(2) [OF assms n u, of r] show ?thesis
      by (auto simp: plain_convert)
  qed
  from before kept applied show ?thesis by blast
qed

theorem update_never_writes_id_witness:
  "stored hammer_world ''p1'' = Some (hd (table hammer_world))
   \<and> ''p1'' \<noteq> []
   \<and> updatable (indexes hammer_world) ''2024-06-01T00:00:00.000Z'' [(''id'', JStr ''other''), (''name'', JStr ''x'')]
   \<and> plain (JStr ''x'')
   \<and> attribute (snd (update products ''2024-06-01T00:00:00.000Z'' None ''p1''
          [(''id'', JStr ''other''), (''name'', JStr ''x'')] hammer_world)) ''p1'' ''id'' = Some (JStr ''p1'')
   \<and> attribute (snd (update products ''2024-06-01T00:00:00.000Z'' None ''p1''
          [(''id'', JStr ''other''), (''name'', JStr ''x'')] hammer_world)) ''p1'' ''name'' = Some (JStr ''x'')"
proof -
  let ?p = "[(''id'', JStr ''other''), (''name'', JStr ''x'')]"
  let ?w = "snd (update products ''2024-06-01T00:00:00.000Z'' None ''p1'' ?p hammer_world)"
  have tb: "table hammer_world = [hammer @ [(''createdAt'', JStr ''2024-01-01T00:00:00.000Z''),
                                            (''updatedAt'', JStr ''2024-01-01T00:00:00.000Z'')]]"
    by (simp add: hammer_world_def)
  have h: "stored hammer_world ''p1'' = Some (hd (table hammer_world))"
    unfolding tb by (simp add: stored_hammer)
  have n: "''p1'' \<noteq> []" by simp
  have u: "updatable (indexes hammer_world) ''2024-06-01T00:00:00.000Z'' ?p"
    by (simp add: updatable_hammer)
  have p: "plain (JStr ''x'')" by simp
  note t = update_never_writes_id [OF h, of products "''2024-06-01T00:00:00.000Z''" None ?p]
  from t have i: "attribute ?w ''p1'' ''id'' = Some (JStr ''p1'')" by simp
  from t n u have "\<forall>(k, v) \<in> set ?p. k \<noteq> ''id'' \<and> k \<noteq> ''updatedAt'' \<longrightarrow>
      attribute ?w ''p1'' k = Some (convert v) \<and> (plain v \<longrightarrow> attribute ?w ''p1'' k = Some v)"
    by blast
  then have m: "attribute ?w ''p1'' ''name'' = Some (JStr ''x'')" by simp
  from h n u p i m show ?thesis by blast
qed

text \<open>
  C3. The short-circuit of \<open>update\<close> is taken when no clause was built, but \<open>updatedAt\<close>
  is injected before the clauses are built, so there always is one. With the empty
  payload, and with a payload that holds only \<open>id\<close>, \<open>update\<close> sends an update command:
  the stored \<open>updatedAt\<close> of the item changes from the time of creation to the time of
  the call.
\<close>

theorem empty_update_writes:
  "attribute hammer_world ''p1'' ''updatedAt'' = Some (JStr ''2024-01-01T00:00:00.000Z'')
   \<and> updateExpressionParts (build_update ''2024-06-01T00:00:00.000Z'' []) = [(''#attr0'', '':val0'')]
   \<and> attribute (snd (update products ''2024-06-01T00:00:00.000Z'' None ''p1'' [] hammer_world))
         ''p1'' ''updatedAt'' = Some (JStr ''2024-06-01T00:00:00.000Z'')
   \<and> updateExpressionParts (build_update ''2024-06-01T00:00:00.000Z'' [(''id'', JStr ''ignored'')])
        = [(''#attr1'', '':val1'')]
   \<and> attribute (snd (update products ''2024-06-01T00:00:00.000Z'' None ''p1''
           [(''id'', JStr ''ignored'')] hammer_world)) ''p1'' ''updatedAt''
        = Some (JStr ''2024-06-01T00:00:00.000Z'')"
proof -
  have n: "''p1'' \<noteq> []" by simp
  have u1: "updatable (indexes hammer_world) ''2024-06-01T00:00:00.000Z'' []"
    and u2: "updatable (indexes hammer_world) ''2024-06-01T00:00:00.000Z'' [(''id'', JStr ''ignored'')]"
    by (simp_all add: updatable_def sent_fields_def updatesWithTimestamp_def attributes_ok_def)
  have a: "attribute hammer_world ''p1'' ''updatedAt'' = Some (JStr ''2024-01-01T00:00:00.000Z'')"
    by (simp add: attribute_def stored_hammer hammer_def)
  have b: "updateExpressionParts (build_update ''2024-06-01T00:00:00.000Z'' []) = [(''#attr0'', '':val0'')]"
    by (simp add: build_update_eq updatesWithTimestamp_def non_id_def clause_of_def attrName_def
        attrValue_def string_of_nat_digits)
  have c: "updateExpressionParts (build_update ''2024-06-01T00:00:00.000Z'' [(''id'', JStr ''ignored'')])
        = [(''#attr1'', '':val1'')]"
    by (simp add: build_update_eq updatesWithTimestamp_def non_id_def clause_of_def attrName_def
        attrValue_def string_of_nat_Suc_0)
  have d: "attribute (snd (update products ''2024-06-01T00:00:00.000Z'' None ''p1'' [] hammer_world))
         ''p1'' ''updatedAt'' = Some (convert (JStr ''2024-06-01T00:00:00.000Z''))"
    by (rule attribute_after_update(2) [OF stored_hammer n u1 updatedAt_sent])
  have e: "attribute (snd (update products ''2024-06-01T00:00:00.000Z'' None ''p1''
           [(''id'', JStr ''ignored'')] hammer_world)) ''p1'' ''updatedAt''
        = Some (convert (JStr ''2024-06-01T00:00:00.000Z''))"
    by (rule attribute_after_update(2) [OF stored_hammer n u2 updatedAt_sent])
  from a b c d e show ?thesis by simp
qed

subsection \<open>Timestamps and reading back\<close>

text \<open>
  C5, as stated, fails: a payload that carries \<open>createdAt\<close> overwrites the stored value,
  since the callback of \<open>update\<close> skips the key \<open>id\<close> only.
\<close>

theorem createdAt_overwritten_by_update:
  "attribute hammer_world ''p1'' ''createdAt'' = Some (JStr ''2024-01-01T00:00:00.000Z'')
   \<and> attribute (snd (update products ''2024-06-01T00:00:00.000Z'' None ''p1''
           [(''createdAt'', JStr ''1999-12-31T00:00:00.000Z'')] hammer_world)) ''p1'' ''createdAt''
        = Some (JStr ''1999-12-31T00:00:00.000Z'')
   \<and> JStr ''1999-12-31T00:00:00.000Z'' \<noteq> JStr ''2024-01-01T00:00:00.000Z''"
proof -
  let ?p = "[(''createdAt'', JStr ''1999-12-31T00:00:00.000Z'')]"
  have a: "attribute hammer_world ''p1'' ''createdAt'' = Some (JStr ''2024-01-01T00:00:00.000Z'')"
    by (simp add: attribute_def stored_hammer hammer_def)
  have n: "''p1'' \<noteq> []" by simp
  have u: "updatable (indexes hammer_world) ''2024-06-01T00:00:00.000Z'' ?p"
    by (simp add: updatable_def sent_fields_def updatesWithTimestamp_def attributes_ok_def)
  have m: "(''createdAt'', JStr ''1999-12-31T00:00:00.000Z'') \<in> set (sent_fields ''2024-06-01T00:00:00.000Z'' ?p)"
    by (rule mem_sent_fields) simp_all
  have b: "attribute (snd (update products ''2024-06-01T00:00:00.000Z'' None ''p1'' ?p hammer_world))
      ''p1'' ''createdAt'' = Some (convert (JStr ''1999-12-31T00:00:00.000Z''))"
    by (rule attribute_after_update(2) [OF stored_hammer n u m])
  from a b show ?thesis by simp
qed

text \<open>One applied update: \<open>updatedAt\<close> becomes the reading of the clock, \<open>createdAt\<close> stays
  when the payload does not name it.\<close>

lemma update_step:
  assumes "stored w ident = Some old" and "ident \<noteq> []" and "updatable (indexes w) now updates"
  shows "\<exists>new. stored (snd (update r now None ident updates w)) ident = Some new"
    and "attribute (snd (update r now None ident updates w)) ident ''updatedAt'' = Some (convert (JStr now))"
    and "''createdAt'' \<notin> fst ` set updates
         \<Longrightarrow> attribute (snd (update r now None ident updates w)) ident ''createdAt''
             = attribute w ident ''createdAt''"
proof -
  show "\<exists>new. stored (snd (update r now None ident updates w)) ident = Some new"
    by (simp add: stored_after_update(1) [OF assms])
  show "attribute (snd (update r now None ident updates w)) ident ''updatedAt'' = Some (convert (JStr now))"
    by (rule attribute_after_update(2) [OF assms updatedAt_sent])
  show "attribute (snd (update r now None ident updates w)) ident ''createdAt''
             = attribute w ident ''createdAt''" if "''createdAt'' \<notin> fst ` set updates"
    using that by (intro attribute_after_update(1) [OF assms]) simp_all
qed

lemma run_updates_timestamps:
  assumes "stored w ident = Some old" and "ident \<noteq> []" and "indexes w = ixs"
    and "\<forall>(t, p) \<in> set calls. updatable ixs t p \<and> ''createdAt'' \<notin> fst ` set p"
    and "attribute w ident ''updatedAt'' = Some (convert (JStr u))"
  shows "attribute (run_updates r ident calls w) ident ''createdAt'' = attribute w ident ''createdAt''
    \<and> attribute (run_updates r ident calls w) ident ''updatedAt''
        = Some (convert (JStr (last (u # map fst calls))))"
  using assms(1,3,4,5)
proof (induction calls arbitrary: w old u)
  case Nil
  then show ?case by simp
next
  case (Cons c calls)
  obtain t p where c: "c = (t, p)" by (cases c)
  let ?w = "snd (update r t None ident p w)"
  from Cons.prems(2,3) c have p: "updatable (indexes w) t p" "''createdAt'' \<notin> fst ` set p" by auto
  from update_step(1) [OF Cons.prems(1) assms(2) p(1)] obtain new where new: "stored ?w ident = Some new"
    by blast
  have u: "attribute ?w ident ''updatedAt'' = Some (convert (JStr t))"
    using Cons.prems(1) assms(2) p(1) by (rule update_step(2))
  have k: "attribute ?w ident ''createdAt'' = attribute w ident ''createdAt''"
    using Cons.prems(1) assms(2) p by (rule update_step(3))
  have ix: "indexes ?w = ixs" using Cons.prems(2) by (simp add: indexes_after_update)
  from Cons.prems(3) have rest: "\<forall>(t, p) \<in> set calls. updatable ixs t p \<and> ''createdAt'' \<notin> fst ` set p"
    by simp
  from Cons.IH [OF new ix rest u] k c show ?case by simp
qed

lemma attribute_after_create:
  assumes "map_of e ''id'' = Some (JStr ident)" and "accepted (indexes w) (itemWithTimestamps now e)"
    and "stored w ident = None"
  shows "attribute (snd (create r now None e w)) ident k
       = map_of (marshalled (itemWithTimestamps now e)) k"
  by (simp add: attribute_def stored_after_create [OF assms])

lemma timestamps_marshalled:
  "map_of (marshalled (itemWithTimestamps now e)) ''createdAt'' = Some (convert (JStr now))"
  "map_of (marshalled (itemWithTimestamps now e)) ''updatedAt'' = Some (convert (JStr now))"
proof -
  have d: "JStr now \<noteq> JUndefined" by simp
  show "map_of (marshalled (itemWithTimestamps now e)) ''createdAt'' = Some (convert (JStr now))"
    using map_of_itemWithTimestamps(1) d by (rule map_of_marshalled)
  show "map_of (marshalled (itemWithTimestamps now e)) ''updatedAt'' = Some (convert (JStr now))"
    using map_of_itemWithTimestamps(2) d by (rule map_of_marshalled)
qed

lemma sorted_head_le_last: "sorted (x # xs) \<Longrightarrow> x \<le> last (x # xs)"
  by (cases "xs = []") auto

text \<open>
  C5, amended. For an entity with a fresh identifier that the client can marshal and the
  store accepts, \<open>create\<close> stores the reading of the clock as \<open>createdAt\<close> and as
  \<open>updatedAt\<close>. Through any run of updates on a store that answers, with payloads that the
  client can marshal and the store accepts and that do not carry \<open>createdAt\<close>, \<open>createdAt\<close>
  stays what \<open>create\<close> stored and \<open>updatedAt\<close> is the reading of the clock at the last
  call; so when the readings do not decrease, the final \<open>updatedAt\<close> is not before the one
  of creation (the texts compared as strings, which for the fixed format of
  \<^verbatim>\<open>toISOString\<close> is the order in time). A reading of the clock is never the empty text.
\<close>

theorem timestamps_across_updates:
  assumes "map_of e ''id'' = Some (JStr ident)"
    and "accepted (indexes w) (itemWithTimestamps t0 e)"
    and "stored w ident = None"
    and "t0 \<noteq> []"
    and "\<forall>(t, p) \<in> set calls. t \<noteq> [] \<and> updatable (indexes w) t p \<and> ''createdAt'' \<notin> fst ` set p"
  shows "attribute (snd (create r t0 None e w)) ident ''createdAt'' = Some (JStr t0)
    \<and> attribute (snd (create r t0 None e w)) ident ''updatedAt'' = Some (JStr t0)
    \<and> attribute (run_updates r ident calls (snd (create r t0 None e w))) ident ''createdAt'' = Some (JStr t0)
    \<and> attribute (run_updates r ident calls (snd (create r t0 None e w))) ident ''updatedAt''
        = Some (JStr (last (t0 # map fst calls)))
    \<and> (sorted (t0 # map fst calls) \<longrightarrow> t0 \<le> last (t0 # map fst calls))"
proof -
  let ?w = "snd (create r t0 None e w)"
  have c: "attribute ?w ident ''createdAt'' = Some (JStr t0)"
    and u: "attribute ?w ident ''updatedAt'' = Some (JStr t0)"
    using assms(4) by (simp_all add: attribute_after_create [OF assms(1,2,3)] timestamps_marshalled)
  have s: "stored ?w ident = Some (marshalled (itemWithTimestamps t0 e))"
    using assms(1,2,3) by (rule stored_after_create)
  have n: "ident \<noteq> []" using assms(1,2) by (rule accepted_key(1))
  have ix: "indexes ?w = indexes w" by (rule indexes_after_create)
  have calls: "\<forall>(t, p) \<in> set calls. updatable (indexes w) t p \<and> ''createdAt'' \<notin> fst ` set p"
    using assms(5) by auto
  have u': "attribute ?w ident ''updatedAt'' = Some (convert (JStr t0))"
    using u assms(4) by simp
  note run = run_updates_timestamps [OF s n ix calls u', of r]
  have "last (t0 # map fst calls) \<in> set (t0 # map fst calls)" by (rule last_in_set) simp
  with assms(4,5) have ne: "last (t0 # map fst calls) \<noteq> []" by auto
  from run c have c2: "attribute (run_updates r ident calls ?w) ident ''createdAt'' = Some (JStr t0)"
    by simp
  from run ne have u2: "attribute (run_updates r ident calls ?w) ident ''updatedAt''
        = Some (JStr (last (t0 # map fst calls)))"
    by simp
  from c u c2 u2 sorted_head_le_last [of t0 "map fst calls"] show ?thesis by blast
qed

theorem timestamps_across_updates_witness:
  "map_of hammer ''id'' = Some (JStr ''p1'')
   \<and> accepted (indexes empty_world) (itemWithTimestamps ''2024-01-01T00:00:00.000Z'' hammer)
   \<and> stored empty_world ''p1'' = None
   \<and> attribute (run_updates products ''p1''
          [(''2024-02-01T00:00:00.000Z'', [(''price'', JNum (2499 / 100))]),
           (''2024-03-01T00:00:00.000Z'', [(''name'', JStr ''Claw hammer''), (''updatedAt'', JStr ''1999'')])]
          (snd (create products ''2024-01-01T00:00:00.000Z'' None hammer empty_world))) ''p1'' ''createdAt''
       = Some (JStr ''2024-01-01T00:00:00.000Z'')
   \<and> attribute (run_updates products ''p1''
          [(''2024-02-01T00:00:00.000Z'', [(''price'', JNum (2499 / 100))]),
           (''2024-03-01T00:00:00.000Z'', [(''name'', JStr ''Claw hammer''), (''updatedAt'', JStr ''1999'')])]
          (snd (create products ''2024-01-01T00:00:00.000Z'' None hammer empty_world))) ''p1'' ''updatedAt''
       = Some (JStr ''2024-03-01T00:00:00.000Z'')
   \<and> ''2024-01-01T00:00:00.000Z'' \<le> ''2024-03-01T00:00:00.000Z''"
proof -
  let ?calls = "[(''2024-02-01T00:00:00.000Z'', [(''price'', JNum (2499 / 100))]),
           (''2024-03-01T00:00:00.000Z'', [(''name'', JStr ''Claw hammer''), (''updatedAt'', JStr ''1999'')])]"
  have h1: "map_of hammer ''id'' = Some (JStr ''p1'')" by (simp add: hammer_def)
  have h2: "accepted (indexes empty_world) (itemWithTimestamps ''2024-01-01T00:00:00.000Z'' hammer)"
    using accepted_hammer by simp
  have h3: "stored empty_world ''p1'' = None" by (rule stored_empty_world)
  have h4: "''2024-01-01T00:00:00.000Z'' \<noteq> []" by simp
  have h5: "\<forall>(t, p) \<in> set ?calls. t \<noteq> [] \<and> updatable (indexes empty_world) t p
      \<and> ''createdAt'' \<notin> fst ` set p"
    by (simp add: updatable_def sent_fields_def updatesWithTimestamp_def attributes_ok_def
        MAX_SAFE_INTEGER_def)
  have srt: "sorted (''2024-01-01T00:00:00.000Z'' # map fst ?calls)" by simp
  note t = timestamps_across_updates [OF h1 h2 h3 h4 h5, of products]
  from t srt have le: "''2024-01-01T00:00:00.000Z'' \<le> last (''2024-01-01T00:00:00.000Z'' # map fst ?calls)"
    by blast
  from t h1 h2 h3 le show ?thesis by simp
qed

text \<open>
  C7, as stated, fails: \<open>create\<close> returns the item as it was passed, while the store
  holds it as the client marshalled it. An entity with an empty string comes back from
  \<open>getById\<close> with \<open>null\<close> in its place.
\<close>

theorem empty_string_not_read_back:
  "stored empty_world ''p1'' = None
   \<and> fst (create products ''2024-01-01T00:00:00.000Z'' None [(''id'', JStr ''p1''), (''name'', JStr '''')] empty_world)
       = Inr [(''id'', JStr ''p1''), (''name'', JStr ''''),
              (''createdAt'', JStr ''2024-01-01T00:00:00.000Z''), (''updatedAt'', JStr ''2024-01-01T00:00:00.000Z'')]
   \<and> fst (getById products None ''p1''
          (snd (create products ''2024-01-01T00:00:00.000Z'' None [(''id'', JStr ''p1''), (''name'', JStr '''')] empty_world)))
       = Inr (Some [(''id'', JStr ''p1''), (''name'', JNull),
              (''createdAt'', JStr ''2024-01-01T00:00:00.000Z''), (''updatedAt'', JStr ''2024-01-01T00:00:00.000Z'')])"
proof -
  let ?e = "[(''id'', JStr ''p1''), (''name'', JStr '''')]"
  let ?t = "''2024-01-01T00:00:00.000Z''"
  have h1: "map_of ?e ''id'' = Some (JStr ''p1'')" by simp
  have h2: "accepted (indexes empty_world) (itemWithTimestamps ?t ?e)"
    by (simp add: accepted_def itemWithTimestamps_def marshalled_def key_of_def
        attributes_ok_def index_value_ok_def)
  have h3: "stored empty_world ''p1'' = None" by (rule stored_empty_world)
  have c: "fst (create products ?t None ?e empty_world) = Inr (itemWithTimestamps ?t ?e)"
    by (simp add: create_fresh [OF h1 h2 h3])
  have g: "fst (getById products None ''p1'' (snd (create products ?t None ?e empty_world)))
      = Inr (Some (marshalled (itemWithTimestamps ?t ?e)))"
    by (simp add: getById_ok stored_after_create [OF h1 h2 h3])
  have i: "itemWithTimestamps ?t ?e = [(''id'', JStr ''p1''), (''name'', JStr ''''),
              (''createdAt'', JStr ?t), (''updatedAt'', JStr ?t)]"
    by (simp add: itemWithTimestamps_def)
  have m: "marshalled [(''id'', JStr ''p1''), (''name'', JStr ''''),
              (''createdAt'', JStr ?t), (''updatedAt'', JStr ?t)]
      = [(''id'', JStr ''p1''), (''name'', JNull), (''createdAt'', JStr ?t), (''updatedAt'', JStr ?t)]"
    by (simp add: marshalled_def)
  from h3 c g show ?thesis unfolding i m by (simp only: simp_thms)
qed

lemma list_all_update:
  "list_all P al \<Longrightarrow> P (k, v) \<Longrightarrow> list_all P (AList.update k v al)"
  by (induction al) auto

lemma plain_itemWithTimestamps:
  assumes "list_all (\<lambda>p. plain (snd p)) e" and "now \<noteq> []"
  shows "list_all (\<lambda>p. plain (snd p)) (itemWithTimestamps now e)"
  unfolding itemWithTimestamps_def
  using assms by (intro list_all_update) simp_all

text \<open>
  C7, amended. For an entity with a fresh identifier that the store accepts and whose
  values hold no empty string, no \<open>undefined\<close> and only finite, safe numbers (at any depth),
  \<open>create\<close> followed by \<open>getById\<close> on a store that answers returns the entity that
  \<open>create\<close> returned: the input fields with \<open>createdAt\<close> and \<open>updatedAt\<close> set.
\<close>

theorem create_then_getById:
  assumes "map_of e ''id'' = Some (JStr ident)"
    and "stored w ident = None"
    and "accepted (indexes w) (itemWithTimestamps now e)"
    and "list_all (\<lambda>p. plain (snd p)) e"
    and "now \<noteq> []"
  shows "fst (create r now None e w) = Inr (itemWithTimestamps now e)
    \<and> getById r None ident (snd (create r now None e w))
        = (Inr (Some (itemWithTimestamps now e)), snd (create r now None e w))"
proof -
  have m: "marshalled (itemWithTimestamps now e) = itemWithTimestamps now e"
    using assms(4,5) by (intro marshalled_plain plain_itemWithTimestamps)
  have c: "fst (create r now None e w) = Inr (itemWithTimestamps now e)"
    by (simp add: create_fresh [OF assms(1,3,2)])
  have s: "stored (snd (create r now None e w)) ident = Some (itemWithTimestamps now e)"
    using stored_after_create [OF assms(1,3,2), of r] by (simp only: m)
  have n: "ident \<noteq> []" using assms(1,3) by (rule accepted_key(1))
  have g: "getById r None ident (snd (create r now None e w))
      = (Inr (stored (snd (create r now None e w)) ident), snd (create r now None e w))"
    using n by (rule getById_ok)
  from c g s show ?thesis by (simp only: simp_thms)
qed

theorem create_then_getById_witness:
  "map_of hammer ''id'' = Some (JStr ''p1'')
   \<and> stored empty_world ''p1'' = None
   \<and> accepted (indexes empty_world) (itemWithTimestamps ''2024-01-01T00:00:00.000Z'' hammer)
   \<and> list_all (\<lambda>p. plain (snd p)) hammer
   \<and> ''2024-01-01T00:00:00.000Z'' \<noteq> []
   \<and> fst (create products ''2024-01-01T00:00:00.000Z'' None hammer empty_world)
       = Inr (itemWithTimestamps ''2024-01-01T00:00:00.000Z'' hammer)
   \<and> getById products None ''p1'' (snd (create products ''2024-01-01T00:00:00.000Z'' None hammer empty_world))
       = (Inr (Some (itemWithTimestamps ''2024-01-01T00:00:00.000Z'' hammer)),
          snd (create products ''2024-01-01T00:00:00.000Z'' None hammer empty_world))
   \<and> itemWithTimestamps ''2024-01-01T00:00:00.000Z'' hammer
       = hammer @ [(''createdAt'', JStr ''2024-01-01T00:00:00.000Z''),
                   (''updatedAt'', JStr ''2024-01-01T00:00:00.000Z'')]"
proof -
  have h1: "map_of hammer ''id'' = Some (JStr ''p1'')" by (simp add: hammer_def)
  have h2: "stored empty_world ''p1'' = None" by (rule stored_empty_world)
  have h3: "accepted (indexes empty_world) (itemWithTimestamps ''2024-01-01T00:00:00.000Z'' hammer)"
    using accepted_hammer by simp
  have h4: "list_all (\<lambda>p. plain (snd p)) hammer" by (simp add: hammer_def MAX_SAFE_INTEGER_def)
  have h5: "''2024-01-01T00:00:00.000Z'' \<noteq> []" by simp
  have i: "itemWithTimestamps ''2024-01-01T00:00:00.000Z'' hammer
      = hammer @ [(''createdAt'', JStr ''2024-01-01T00:00:00.000Z''),
                  (''updatedAt'', JStr ''2024-01-01T00:00:00.000Z'')]"
    by (simp add: itemWithTimestamps_def hammer_def)
  from create_then_getById [OF h1 h2 h3 h4 h5, of products] h1 h2 h3 h4 h5 i show ?thesis
    by blast
qed

subsection \<open>The update-expression builder and the limit of a scan\<close>

text \<open>
  C6. For every payload the builder makes exactly one clause per entry that is not \<open>id\<close>
  (the entries after \<open>updatedAt\<close> has been injected), numbered by the entry's position:
  the clause names only the two placeholders of that position, the name table sends the
  name placeholder to the field name, the value table sends the value placeholder to the
  supplied value. The placeholders are pairwise distinct, and the text of the expression
  is made of them alone, whatever the field names are.
\<close>

theorem update_expression_builder:
  "updateExpressionParts (build_update now updates)
      = map clause_of (non_id (enumerate 0 (updatesWithTimestamp now updates)))
   \<and> expressionAttributeNames (build_update now updates)
      = map name_of (non_id (enumerate 0 (updatesWithTimestamp now updates)))
   \<and> expressionAttributeValues (build_update now updates)
      = map value_of (non_id (enumerate 0 (updatesWithTimestamp now updates)))
   \<and> map snd (non_id (enumerate 0 (updatesWithTimestamp now updates)))
      = filter (\<lambda>p. fst p \<noteq> ''id'') (updatesWithTimestamp now updates)
   \<and> (''updatedAt'', JStr now) \<in> set (updatesWithTimestamp now updates)
   \<and> distinct (map fst (updateExpressionParts (build_update now updates)))
   \<and> distinct (map snd (updateExpressionParts (build_update now updates)))
   \<and> set (map fst (updateExpressionParts (build_update now updates)))
        \<inter> set (map snd (updateExpressionParts (build_update now updates))) = {}
   \<and> (\<forall>e \<in> set (non_id (enumerate 0 (updatesWithTimestamp now updates))).
         map_of (expressionAttributeNames (build_update now updates)) (attrName (fst e)) = Some (fst (snd e))
       \<and> map_of (expressionAttributeValues (build_update now updates)) (attrValue (fst e)) = Some (snd (snd e)))
   \<and> UpdateExpression (updateExpressionParts (build_update now updates))
      = ''SET '' @ join '', '' (map (\<lambda>i. attrName i @ '' = '' @ attrValue i)
                                  (map fst (non_id (enumerate 0 (updatesWithTimestamp now updates)))))"
proof -
  let ?F = "non_id (enumerate 0 (updatesWithTimestamp now updates))"
  have d: "distinct (map fst ?F)" by (rule distinct_fst_non_id)
  have p: "updateExpressionParts (build_update now updates) = map clause_of ?F"
    and n: "expressionAttributeNames (build_update now updates) = map name_of ?F"
    and v: "expressionAttributeValues (build_update now updates) = map value_of ?F"
    by (simp_all add: build_update_eq)
  have fsts: "map fst (map clause_of ?F) = map attrName (map fst ?F)"
    and snds: "map snd (map clause_of ?F) = map attrValue (map fst ?F)"
    by (simp_all add: clause_of_def comp_def)
  have d1: "distinct (map fst (map clause_of ?F))"
    unfolding fsts using d by (simp add: distinct_map inj_on_def)
  have d2: "distinct (map snd (map clause_of ?F))"
    unfolding snds using d by (simp add: distinct_map inj_on_def)
  have d3: "set (map fst (map clause_of ?F)) \<inter> set (map snd (map clause_of ?F)) = {}"
    unfolding fsts snds by (auto simp: attrName_neq_attrValue)
  have tables: "\<forall>e \<in> set ?F.
         map_of (map name_of ?F) (attrName (fst e)) = Some (fst (snd e))
       \<and> map_of (map value_of ?F) (attrValue (fst e)) = Some (snd (snd e))"
  proof
    fix e assume e: "e \<in> set ?F"
    have "map_of (map name_of ?F) (attrName (fst e)) = Some (fst (snd e))"
      using d e by (rule map_of_names)
    moreover have "map_of (map value_of ?F) (attrValue (fst e)) = Some (snd (snd e))"
      using d e by (rule map_of_plain_values)
    ultimately show "map_of (map name_of ?F) (attrName (fst e)) = Some (fst (snd e))
       \<and> map_of (map value_of ?F) (attrValue (fst e)) = Some (snd (snd e))" ..
  qed
  show ?thesis
    unfolding p n v
    using d1 d2 d3 tables map_snd_non_id [of 0] updatedAt_in_updates [of now updates]
      UpdateExpression_text [of ?F]
    by (intro conjI) simp_all
qed

theorem update_expression_builder_witness:
  "updateExpressionParts (build_update ''T'' [(''name'', JStr ''x''), (''id'', JStr ''other''), (''size'', JNum 3)])
     = [(''#attr0'', '':val0''), (''#attr2'', '':val2''), (''#attr3'', '':val3'')]
   \<and> expressionAttributeNames (build_update ''T'' [(''name'', JStr ''x''), (''id'', JStr ''other''), (''size'', JNum 3)])
     = [(''#attr0'', ''name''), (''#attr2'', ''size''), (''#attr3'', ''updatedAt'')]
   \<and> expressionAttributeValues (build_update ''T'' [(''name'', JStr ''x''), (''id'', JStr ''other''), (''size'', JNum 3)])
     = [('':val0'', JStr ''x''), ('':val2'', JNum 3), ('':val3'', JStr ''T'')]
   \<and> map_of (expressionAttributeNames
         (build_update ''T'' [(''name'', JStr ''x''), (''id'', JStr ''other''), (''size'', JNum 3)])) (attrName 2)
     = Some ''size''
   \<and> map_of (expressionAttributeValues
         (build_update ''T'' [(''name'', JStr ''x''), (''id'', JStr ''other''), (''size'', JNum 3)])) (attrValue 2)
     = Some (JNum 3)
   \<and> UpdateExpression (updateExpressionParts
         (build_update ''T'' [(''name'', JStr ''x''), (''id'', JStr ''other''), (''size'', JNum 3)]))
     = ''SET #attr0 = :val0, #attr2 = :val2, #attr3 = :val3''"
proof -
  let ?p = "[(''name'', JStr ''x''), (''id'', JStr ''other''), (''size'', JNum 3)]"
  have F: "non_id (enumerate 0 (updatesWithTimestamp ''T'' ?p))
      = [(0, ''name'', JStr ''x''), (2, ''size'', JNum 3), (3, ''updatedAt'', JStr ''T'')]"
    by (simp add: non_id_def updatesWithTimestamp_def)
  note built = update_expression_builder [of "''T''" ?p, unfolded F]
  from built have parts: "updateExpressionParts (build_update ''T'' ?p)
      = map clause_of [(0, ''name'', JStr ''x''), (2, ''size'', JNum 3), (3, ''updatedAt'', JStr ''T'')]"
    by (rule conjunct1)
  from built have names: "expressionAttributeNames (build_update ''T'' ?p)
      = map name_of [(0, ''name'', JStr ''x''), (2, ''size'', JNum 3), (3, ''updatedAt'', JStr ''T'')]"
    by blast
  from built have vals: "expressionAttributeValues (build_update ''T'' ?p)
      = map value_of [(0, ''name'', JStr ''x''), (2, ''size'', JNum 3), (3, ''updatedAt'', JStr ''T'')]"
    by blast
  from built have "\<forall>e \<in> set [(0, ''name'', JStr ''x''), (2, ''size'', JNum 3), (3, ''updatedAt'', JStr ''T'')].
         map_of (expressionAttributeNames (build_update ''T'' ?p)) (attrName (fst e)) = Some (fst (snd e))
       \<and> map_of (expressionAttributeValues (build_update ''T'' ?p)) (attrValue (fst e)) = Some (snd (snd e))"
    by blast
  then have size: "map_of (expressionAttributeNames (build_update ''T'' ?p)) (attrName 2) = Some ''size''
       \<and> map_of (expressionAttributeValues (build_update ''T'' ?p)) (attrValue 2) = Some (JNum 3)"
    by simp
  have rest: "map clause_of [(0, ''name'', JStr ''x''), (2, ''size'', JNum 3), (3, ''updatedAt'', JStr ''T'')]
        = [(''#attr0'', '':val0''), (''#attr2'', '':val2''), (''#attr3'', '':val3'')]
     \<and> map name_of [(0, ''name'', JStr ''x''), (2, ''size'', JNum 3), (3, ''updatedAt'', JStr ''T'')]
        = [(''#attr0'', ''name''), (''#attr2'', ''size''), (''#attr3'', ''updatedAt'')]
     \<and> map value_of [(0, ''name'', JStr ''x''), (2, ''size'', JNum 3), (3, ''updatedAt'', JStr ''T'')]
        = [('':val0'', JStr ''x''), ('':val2'', JNum 3), ('':val3'', JStr ''T'')]
     \<and> UpdateExpression (map clause_of [(0, ''name'', JStr ''x''), (2, ''size'', JNum 3), (3, ''updatedAt'', JStr ''T'')])
        = ''SET #attr0 = :val0, #attr2 = :val2, #attr3 = :val3''"
    by (simp add: clause_of_def name_of_def value_of_def attrName_def attrValue_def
        string_of_nat_digits UpdateExpression_def)
  from size rest show ?thesis
    unfolding parts names vals by blast
qed

text \<open>
  C9, as stated, fails at the limit 0: \<^verbatim>\<open>limit && { Limit: limit }\<close> passes no limit on
  when it is 0, and the scan returns the table, here of one item.
\<close>

theorem limit_zero_returns_all:
  "fst (getAll products None (Some 0) hammer_world) = Inr (table hammer_world)
   \<and> length (table hammer_world) = 1"
  by (simp add: getAll_def scan_limit_def send_def no_output_def hammer_world_def)

text \<open>
  C9, amended. Without a limit, and with the limit 0, \<open>getAll\<close> returns the whole table as
  the scan gives it; with a limit of at least 1 it returns the first \<open>limit\<close> items, so at
  most \<open>limit\<close> of them.
\<close>

theorem getAll_limit:
  "getAll r None None w = (Inr (table w), w)
   \<and> getAll r None (Some 0) w = (Inr (table w), w)
   \<and> (0 < n \<longrightarrow> getAll r None (Some n) w = (Inr (take (nat n) (table w)), w)
                \<and> int (length (take (nat n) (table w))) \<le> n)"
proof -
  have "int (length (take (nat n) (table w))) \<le> n" if "0 < n"
  proof -
    have "length (take (nat n) (table w)) \<le> nat n" by simp
    with that show ?thesis by linarith
  qed
  then show ?thesis
    by (simp add: getAll_def scan_limit_def send_def no_output_def)
qed

theorem getAll_limit_witness:
  "(0::int) < 1
   \<and> getAll products None (Some 1) (hammer_world \<lparr> table := table hammer_world @ [[(''id'', JStr ''p2'')]] \<rparr>)
       = (Inr (table hammer_world), hammer_world \<lparr> table := table hammer_world @ [[(''id'', JStr ''p2'')]] \<rparr>)
   \<and> getAll products None None (hammer_world \<lparr> table := table hammer_world @ [[(''id'', JStr ''p2'')]] \<rparr>)
       = (Inr (table hammer_world @ [[(''id'', JStr ''p2'')]]),
          hammer_world \<lparr> table := table hammer_world @ [[(''id'', JStr ''p2'')]] \<rparr>)"
proof -
  let ?w = "hammer_world \<lparr> table := table hammer_world @ [[(''id'', JStr ''p2'')]] \<rparr>"
  have h: "(0::int) < 1" by simp
  have t: "take (nat 1) (table ?w) = table hammer_world" by (simp add: hammer_world_def)
  note g = getAll_limit [of products ?w 1]
  from g h have a: "getAll products None (Some 1) ?w = (Inr (take (nat 1) (table ?w)), ?w)" by blast
  from g have b: "getAll products None None ?w = (Inr (table ?w), ?w)" by blast
  from h a b show ?thesis unfolding t by simp
qed

subsection \<open>The timestamps of a created record\<close>

lemma create_success_table:
  assumes "fst (create r now fault it w) = Inr res"
  shows "\<exists>n. table (snd (create r now fault it w))
              = insert_at n (marshalled (itemWithTimestamps now it)) (table w)"
proof -
  let ?cmd = "PutCommand (tableName r) (itemWithTimestamps now it) (attribute_not_exists ''id'')"
  obtain out tbl' where s: "send fault ?cmd w = (out, tbl')" by (cases "send fault ?cmd w")
  with assms obtain x where x: "out = Inr x"
    by (cases out) (auto simp: create_def split: if_splits)
  with s have e: "marshall (itemWithTimestamps now it) = Some (marshalled (itemWithTimestamps now it))"
    and ex: "exec w (PutCommand (tableName r) (marshalled (itemWithTimestamps now it))
               (attribute_not_exists ''id'')) = (Inr x, tbl')"
    by (auto simp: send_def marshall_def split: option.splits if_splits)
  from ex have "\<exists>n. tbl' = insert_at n (marshalled (itemWithTimestamps now it)) (table w)"
    by (auto split: option.splits if_splits dest!: lookup_item_has_key simp: has_key_def)
  with s x show ?thesis by (simp add: create_def)
qed

text \<open>
  C10. Whatever the entity passed to \<open>create\<close> is, and whatever \<open>createdAt\<close> and
  \<open>updatedAt\<close> it carries, the item that \<open>create\<close> builds has both equal to the reading of
  the clock, and so has the item the client marshals from it. Every \<open>create\<close> that succeeds
  returns that item and has filed its marshalled form as one new item of the table; every
  \<open>create\<close> that fails leaves the table as it was. So the caller's timestamps are neither
  returned nor stored, and in the created record the two timestamps are the same value.
  For an entity with a fresh identifier that the store accepts, \<open>create\<close> on a store that
  answers does succeed, and the stored \<open>createdAt\<close> and \<open>updatedAt\<close> are the reading of the
  clock.
\<close>

theorem create_overwrites_timestamps:
  "map_of (itemWithTimestamps now e) ''createdAt'' = Some (JStr now)
   \<and> map_of (itemWithTimestamps now e) ''updatedAt'' = Some (JStr now)
   \<and> map_of (marshalled (itemWithTimestamps now e)) ''createdAt'' = Some (convert (JStr now))
   \<and> map_of (marshalled (itemWithTimestamps now e)) ''updatedAt'' = Some (convert (JStr now))
   \<and> (fst (create r now fault e w) = Inr res \<longrightarrow>
         res = itemWithTimestamps now e
         \<and> (\<exists>n. table (snd (create r now fault e w))
                   = insert_at n (marshalled (itemWithTimestamps now e)) (table w)))
   \<and> (fst (create r now fault e w) = Inl err \<longrightarrow> table (snd (create r now fault e w)) = table w)
   \<and> (map_of e ''id'' = Some (JStr ident) \<and> accepted (indexes w) (itemWithTimestamps now e)
        \<and> stored w ident = None \<and> now \<noteq> [] \<longrightarrow>
         fst (create r now None e w) = Inr (itemWithTimestamps now e)
         \<and> attribute (snd (create r now None e w)) ident ''createdAt'' = Some (JStr now)
         \<and> attribute (snd (create r now None e w)) ident ''updatedAt'' = Some (JStr now))"
proof -
  have ok: "fst (create r now None e w) = Inr (itemWithTimestamps now e)
         \<and> attribute (snd (create r now None e w)) ident ''createdAt'' = Some (JStr now)
         \<and> attribute (snd (create r now None e w)) ident ''updatedAt'' = Some (JStr now)"
    if h: "map_of e ''id'' = Some (JStr ident)" "accepted (indexes w) (itemWithTimestamps now e)"
      "stored w ident = None" and n: "now \<noteq> []"
  proof -
    have "fst (create r now None e w) = Inr (itemWithTimestamps now e)"
      by (simp add: create_fresh [OF h])
    moreover have "attribute (snd (create r now None e w)) ident ''createdAt'' = Some (JStr now)"
      using n by (simp add: attribute_after_create [OF h] timestamps_marshalled)
    moreover have "attribute (snd (create r now None e w)) ident ''updatedAt'' = Some (JStr now)"
      using n by (simp add: attribute_after_create [OF h] timestamps_marshalled)
    ultimately show ?thesis by (simp only: simp_thms)
  qed
  from ok create_success_result [of r now fault e w res] create_success_table [of r now fault e w res]
    create_failure_table [of r now fault e w err]
    map_of_itemWithTimestamps [of now e] timestamps_marshalled [of now e]
  show ?thesis by blast
qed

theorem create_overwrites_timestamps_witness:
  "map_of [(''createdAt'', JStr ''1999''), (''id'', JStr ''p2''), (''updatedAt'', JStr ''2000'')] ''id''
      = Some (JStr ''p2'')
   \<and> accepted (indexes hammer_world) (itemWithTimestamps ''2024-01-01T00:00:00.000Z''
         [(''createdAt'', JStr ''1999''), (''id'', JStr ''p2''), (''updatedAt'', JStr ''2000'')])
   \<and> stored hammer_world ''p2'' = None
   \<and> ''2024-01-01T00:00:00.000Z'' \<noteq> []
   \<and> fst (create products ''2024-01-01T00:00:00.000Z'' None
          [(''createdAt'', JStr ''1999''), (''id'', JStr ''p2''), (''updatedAt'', JStr ''2000'')] hammer_world)
       = Inr [(''createdAt'', JStr ''2024-01-01T00:00:00.000Z''), (''id'', JStr ''p2''),
              (''updatedAt'', JStr ''2024-01-01T00:00:00.000Z'')]
   \<and> attribute (snd (create products ''2024-01-01T00:00:00.000Z'' None
          [(''createdAt'', JStr ''1999''), (''id'', JStr ''p2''), (''updatedAt'', JStr ''2000'')] hammer_world))
         ''p2'' ''createdAt'' = Some (JStr ''2024-01-01T00:00:00.000Z'')
   \<and> attribute (snd (create products ''2024-01-01T00:00:00.000Z'' None
          [(''createdAt'', JStr ''1999''), (''id'', JStr ''p2''), (''updatedAt'', JStr ''2000'')] hammer_world))
         ''p2'' ''updatedAt'' = Some (JStr ''2024-01-01T00:00:00.000Z'')"
proof -
  let ?e = "[(''createdAt'', JStr ''1999''), (''id'', JStr ''p2''), (''updatedAt'', JStr ''2000'')]"
  let ?t = "''2024-01-01T00:00:00.000Z''"
  have i: "itemWithTimestamps ?t ?e
      = [(''createdAt'', JStr ?t), (''id'', JStr ''p2''), (''updatedAt'', JStr ?t)]"
    by (simp add: itemWithTimestamps_def)
  have h1: "map_of ?e ''id'' = Some (JStr ''p2'')" by simp
  have h2: "accepted (indexes hammer_world) (itemWithTimestamps ?t ?e)"
    unfolding i by (simp add: accepted_def marshalled_def key_of_def attributes_ok_def index_value_ok_def)
  have h3: "stored hammer_world ''p2'' = None" by (rule stored_hammer_other) simp
  have h4: "?t \<noteq> []" by simp
  note t = create_overwrites_timestamps [where e = ?e and now = ?t and r = products and w = hammer_world
      and ident = "''p2''"]
  from t h1 h2 h3 h4 have "fst (create products ?t None ?e hammer_world) = Inr (itemWithTimestamps ?t ?e)
      \<and> attribute (snd (create products ?t None ?e hammer_world)) ''p2'' ''createdAt'' = Some (JStr ?t)
      \<and> attribute (snd (create products ?t None ?e hammer_world)) ''p2'' ''updatedAt'' = Some (JStr ?t)"
    by blast
  with h1 h2 h3 h4 show ?thesis unfolding i by blast
qed

subsection \<open>Failures and the log\<close>





















end
